theory Spec2Isabelle
  imports Complex_Main
begin

section \<open>JavaScript values\<close>

text \<open>
  The admin backend (\<^verbatim>\<open>admin-backend/server.js\<close>) keeps its user records as plain
  JavaScript objects that are read from and written to \<^verbatim>\<open>users.json\<close>. A field of
  such an object holds whatever JSON value the request body supplied, and the code
  tests fields with the truthiness of the language (\<^verbatim>\<open>if (user.mcpEndpoint)\<close>,
  \<^verbatim>\<open>braveEnabled || false\<close>). The model therefore keeps the values untyped.
  \<open>JUndefined\<close> is the value of a property that is absent. A number is kept by
  its value; only whether it is zero matters to the code.
\<close>

datatype jsval =
    JUndefined
  | JNull
  | JBool bool
  | JNum rat
  | JStr string
  | JArr "jsval list"
  | JObj "(string \<times> jsval) list"

text \<open>Truthiness: \<^verbatim>\<open>undefined\<close>, \<^verbatim>\<open>null\<close>, \<^verbatim>\<open>false\<close>, \<^verbatim>\<open>0\<close> and \<^verbatim>\<open>''\<close> are falsy,
  every array and object is truthy.\<close>

fun truthy :: "jsval \<Rightarrow> bool" where
  "truthy JUndefined = False"
| "truthy JNull = False"
| "truthy (JBool b) = b"
| "truthy (JNum n) = (n \<noteq> 0)"
| "truthy (JStr s) = (s \<noteq> [])"
| "truthy (JArr xs) = True"
| "truthy (JObj kvs) = True"

text \<open>The operator \<^verbatim>\<open>a || b\<close>.\<close>

definition js_or :: "jsval \<Rightarrow> jsval \<Rightarrow> jsval" where
  "js_or a b = (if truthy a then a else b)"

section \<open>Data model\<close>

text \<open>The \<^verbatim>\<open>status\<close> field is only ever written by the code, with one of two literals.\<close>

datatype bridge_status = Stopped | Running

text \<open>The \<^verbatim>\<open>pid\<close> field: \<^verbatim>\<open>null\<close>, the number \<^verbatim>\<open>proc.pid\<close>, or \<^verbatim>\<open>undefined\<close> when
  \<^verbatim>\<open>proc.pid\<close> is undefined (the key is then dropped by \<^verbatim>\<open>JSON.stringify\<close>).\<close>

datatype pid_field = PidNull | PidNum nat | PidUndefined

record user =
  user_id :: string
  name :: jsval
  mcpEndpoint :: jsval
  braveEnabled :: jsval
  braveApiKey :: jsval
  weatherEnabled :: jsval
  feeds :: jsval
  status :: bridge_status
  pid :: pid_field
  createdAt :: string

text \<open>A \<^verbatim>\<open>ChildProcess\<close> object as returned by \<^verbatim>\<open>spawn\<close>; its \<^verbatim>\<open>pid\<close> is undefined
  (\<open>None\<close>) when the process could not be launched.\<close>

datatype child_process = ChildProcess (proc_pid: "nat option")

text \<open>An entry of \<^verbatim>\<open>bridgeProcesses\<close>: \<^verbatim>\<open>{ process: proc, pid: proc.pid }\<close>.\<close>

datatype handle = Handle (process: child_process) (handle_pid: "nat option")

text \<open>An entry of the generated \<^verbatim>\<open>mcpServers\<close> object: either a remote server
  (\<^verbatim>\<open>url\<close>, \<^verbatim>\<open>transport\<close>) or a local command (\<^verbatim>\<open>command\<close>, \<^verbatim>\<open>args\<close>, \<^verbatim>\<open>transport\<close>).\<close>

datatype descriptor =
    Remote string string
  | Local string "string list" string

type_synonym config = "(string \<times> descriptor) list"

text \<open>The path separator of \<^verbatim>\<open>PYTHON_PATH\<close>, the backslash (character 0x5C).\<close>

definition backslash :: string where
  "backslash = [CHR 0x5C]"

definition PYTHON_PATH :: string where
  "PYTHON_PATH = ''C:'' @ backslash @ ''Users'' @ backslash @ ''Administrator'' @ backslash
     @ ''AppData'' @ backslash @ ''Local'' @ backslash @ ''Programs'' @ backslash
     @ ''Python'' @ backslash @ ''Python313'' @ backslash @ ''python.exe''"

section \<open>Config generation\<close>

text \<open>
  The object \<^verbatim>\<open>mcpServers\<close> that \<^verbatim>\<open>generateUserConfig\<close> builds, as the list of its
  properties in insertion order. The three keys are distinct literals, so every
  assignment adds a property.
\<close>

definition mcpServers :: "user \<Rightarrow> config" where
  "mcpServers u =
     (if truthy (braveEnabled u) \<and> truthy (braveApiKey u)
      then [(''brave-search'', Remote ''http://localhost:8080/sse'' ''sse'')] else [])
     @ (if truthy (weatherEnabled u)
        then [(''weather'', Local PYTHON_PATH [''weather-server.py''] ''stdio'')] else [])
     @ [(''rss-news'', Local PYTHON_PATH [''rss-server.py'', ''--user'', user_id u] ''stdio'')]"

section \<open>Listing users\<close>

text \<open>\<^verbatim>\<open>GET /api/users\<close>: every record is copied with \<^verbatim>\<open>braveApiKey\<close> replaced.\<close>

definition mask_user :: "user \<Rightarrow> user" where
  "mask_user u = u\<lparr>braveApiKey := (if truthy (braveApiKey u) then JStr ''***'' else JStr '''')\<rparr>"

definition list_users :: "user list \<Rightarrow> user list" where
  "list_users us = map mask_user us"

section \<open>State of the backend and of its environment\<close>

text \<open>
  Calls that the backend makes into its environment, in the order it makes them:
  \<^verbatim>\<open>process.kill('SIGKILL')\<close> on a tracked child, the \<^verbatim>\<open>wmic\<close> command that terminates
  processes whose command line mentions \<^verbatim>\<open>config_<userId>\<close>, the write of the config
  file of a user, \<^verbatim>\<open>spawn\<close> (with the values of \<^verbatim>\<open>MCP_ENDPOINT\<close>, the user id that
  determines \<^verbatim>\<open>CONFIG_PATH\<close>, and \<^verbatim>\<open>BRAVE_API_KEY\<close>), the removal of the config file of
  a user, and the write of \<^verbatim>\<open>users.json\<close>.
\<close>

datatype effect =
    Kill child_process
  | Sweep string
  | WriteConfig string
  | Spawn jsval string jsval
  | Unlink string
  | WriteUsers

text \<open>
  \<open>users\<close> is the content of \<^verbatim>\<open>users.json\<close> (the array \<^verbatim>\<open>data.users\<close>),
  \<open>bridgeProcesses\<close> the in-memory object of that name, keyed by user id,
  \<open>configs\<close> the config files \<^verbatim>\<open>config_<id>.json\<close> by user id, and \<open>trace\<close> the
  calls made so far. User ids are the strings \<^verbatim>\<open>user_<milliseconds>\<close> that user
  creation generates, so a key of \<open>bridgeProcesses\<close> never coincides with a property
  inherited from \<^verbatim>\<open>Object.prototype\<close>. \<^verbatim>\<open>readUsers\<close> reads \<open>users\<close>; a file that is
  missing or unreadable reads as the empty list (\<^verbatim>\<open>readUsers\<close> then creates it), which
  is the state with \<open>users = []\<close>.
\<close>

record state =
  users :: "user list"
  bridgeProcesses :: "string \<rightharpoonup> handle"
  configs :: "string \<rightharpoonup> config"
  trace :: "effect list"

text \<open>What \<^verbatim>\<open>spawn\<close> does: it returns a child that runs with a pid, it returns a
  child that could not be launched (its \<^verbatim>\<open>pid\<close> is undefined and an \<^verbatim>\<open>'error'\<close> event
  follows later), or it throws.\<close>

datatype spawn_result = Launched nat | LaunchFailed | SpawnThrew

text \<open>The answers of the environment during one start: whether the config file
  can be written, and what \<^verbatim>\<open>spawn\<close> does.\<close>

record start_env =
  config_write_ok :: bool
  spawn_result :: spawn_result

text \<open>A call either returns a value or throws; the state reached is kept in both cases.\<close>

datatype 'a outcome = Returned 'a | Threw

text \<open>What a route handler answers. \<open>NoResponse\<close>: an exception escaped the
  \<^verbatim>\<open>async\<close> handler and nothing was sent.\<close>

datatype response =
    Success
  | SuccessUser user
  | Error nat string
  | NoResponse

section \<open>Helper functions\<close>

text \<open>\<^verbatim>\<open>Array.prototype.findIndex\<close>; \<open>None\<close> stands for \<^verbatim>\<open>-1\<close>.\<close>

fun findIndex :: "('a \<Rightarrow> bool) \<Rightarrow> 'a list \<Rightarrow> nat option" where
  "findIndex P [] = None"
| "findIndex P (x # xs) = (if P x then Some 0 else map_option Suc (findIndex P xs))"

text \<open>\<^verbatim>\<open>data.users.find(u => u.id === id)\<close> and \<^verbatim>\<open>data.users.findIndex(u => u.id === id)\<close>.\<close>

definition find_user :: "string \<Rightarrow> user list \<Rightarrow> user option" where
  "find_user i us = List.find (\<lambda>u. user_id u = i) us"

definition find_user_index :: "string \<Rightarrow> user list \<Rightarrow> nat option" where
  "find_user_index i us = findIndex (\<lambda>u. user_id u = i) us"

definition writeUsers :: "user list \<Rightarrow> state \<Rightarrow> state" where
  "writeUsers data st = st\<lparr>users := data, trace := trace st @ [WriteUsers]\<rparr>"

text \<open>\<^verbatim>\<open>data.users[idx].status = s; data.users[idx].pid = p\<close>.\<close>

definition set_status :: "nat \<Rightarrow> bridge_status \<Rightarrow> pid_field \<Rightarrow> user list \<Rightarrow> user list" where
  "set_status idx s p data = data[idx := (data ! idx)\<lparr>status := s, pid := p\<rparr>]"

section \<open>Bridge process management\<close>

text \<open>
  \<^verbatim>\<open>generateUserConfig\<close>: writes \<open>mcpServers\<close> to the config file of the user and
  returns its path (here: the user id that determines it). \<^verbatim>\<open>fs.writeFileSync\<close> throws
  when the file cannot be written.
\<close>

definition generateUserConfig :: "bool \<Rightarrow> user \<Rightarrow> state \<Rightarrow> string outcome \<times> state" where
  "generateUserConfig write_ok u st =
     (let st1 = st\<lparr>trace := trace st @ [WriteConfig (user_id u)]\<rparr> in
      if write_ok
      then (Returned (user_id u), st1\<lparr>configs := (configs st1)(user_id u \<mapsto> mcpServers u)\<rparr>)
      else (Threw, st1))"

text \<open>
  \<^verbatim>\<open>killUserBridge\<close>: everything it does to the state happens synchronously, inside
  the promise executor; the promise resolves later, in the callback of \<^verbatim>\<open>exec\<close>.
  An exception of \<^verbatim>\<open>kill\<close> is swallowed.
\<close>

definition killUserBridge :: "string \<Rightarrow> state \<Rightarrow> state" where
  "killUserBridge userId st =
     (let st1 = (case bridgeProcesses st userId of
                   None \<Rightarrow> st
                 | Some h \<Rightarrow> st\<lparr>bridgeProcesses := (bridgeProcesses st)(userId := None),
                                trace := trace st @ [Kill (process h)]\<rparr>)
      in st1\<lparr>trace := trace st1 @ [Sweep userId]\<rparr>)"

text \<open>The child that \<^verbatim>\<open>spawn\<close> returns, and the value of \<^verbatim>\<open>proc.pid\<close> as a field.\<close>

fun spawned_child :: "spawn_result \<Rightarrow> child_process" where
  "spawned_child (Launched p) = ChildProcess (Some p)"
| "spawned_child LaunchFailed = ChildProcess None"
| "spawned_child SpawnThrew = ChildProcess None"

fun pid_value :: "nat option \<Rightarrow> pid_field" where
  "pid_value (Some p) = PidNum p"
| "pid_value None = PidUndefined"

text \<open>
  \<^verbatim>\<open>startUserBridge\<close> after its \<^verbatim>\<open>await killUserBridge(user.id)\<close>: the endpoint check,
  the config file, \<^verbatim>\<open>spawn\<close>, the registration of the child, and the update of the
  persisted record, which is read afresh. \<open>user\<close> is the object the caller passed.
\<close>

definition startUserBridge_resume :: "start_env \<Rightarrow> user \<Rightarrow> state \<Rightarrow> bool outcome \<times> state" where
  "startUserBridge_resume e user st =
     (if \<not> truthy (mcpEndpoint user) then (Returned False, st)
      else case generateUserConfig (config_write_ok e) user st of
        (Threw, st1) \<Rightarrow> (Threw, st1)
      | (Returned configPath, st1) \<Rightarrow>
          (let st2 = st1\<lparr>trace := trace st1 @
                       [Spawn (mcpEndpoint user) configPath (js_or (braveApiKey user) (JStr []))]\<rparr>
           in case spawn_result e of
             SpawnThrew \<Rightarrow> (Threw, st2)
           | r \<Rightarrow>
               (let proc = spawned_child r;
                    st3 = st2\<lparr>bridgeProcesses :=
                                 (bridgeProcesses st2)(user_id user \<mapsto> Handle proc (proc_pid proc))\<rparr>;
                    data = users st3
                in case find_user_index (user_id user) data of
                     None \<Rightarrow> (Returned True, st3)
                   | Some idx \<Rightarrow>
                       (Returned True,
                        writeUsers (set_status idx Running (pid_value (proc_pid proc)) data) st3))))"

definition startUserBridge :: "start_env \<Rightarrow> user \<Rightarrow> state \<Rightarrow> bool outcome \<times> state" where
  "startUserBridge e user st = startUserBridge_resume e user (killUserBridge (user_id user) st)"

text \<open>
  The \<^verbatim>\<open>'exit'\<close> listener that \<^verbatim>\<open>startUserBridge\<close> attaches to the child it spawned.
  The closure refers to \<open>user\<close> only; \<open>proc\<close>, the child whose exit is notified,
  is in its scope but not used.
\<close>

definition on_exit :: "user \<Rightarrow> child_process \<Rightarrow> state \<Rightarrow> state" where
  "on_exit user proc st =
     (let st1 = st\<lparr>bridgeProcesses := (bridgeProcesses st)(user_id user := None)\<rparr>;
          data = users st1
      in case find_user_index (user_id user) data of
           None \<Rightarrow> st1
         | Some idx \<Rightarrow> writeUsers (set_status idx Stopped PidNull data) st1)"

section \<open>Routes\<close>

text \<open>
  \<^verbatim>\<open>POST /api/users/:id/start\<close>. The handler answers at once when the user is unknown
  or has no endpoint; otherwise it awaits \<^verbatim>\<open>startUserBridge\<close>, whose result it ignores.
\<close>

definition start_route :: "start_env \<Rightarrow> string \<Rightarrow> state \<Rightarrow> response \<times> state" where
  "start_route e i st =
     (case find_user i (users st) of
        None \<Rightarrow> (Error 404 ''User not found'', st)
      | Some user \<Rightarrow>
          if \<not> truthy (mcpEndpoint user) then (Error 400 ''MCP Endpoint required'', st)
          else (case startUserBridge e user st of
                  (Returned b, st') \<Rightarrow> (Success, st')
                | (Threw, st') \<Rightarrow> (NoResponse, st')))"

text \<open>
  The same handler in the two pieces that run without interruption: up to the
  \<^verbatim>\<open>await\<close> inside \<^verbatim>\<open>startUserBridge\<close> (the handler is then suspended, holding \<open>user\<close>),
  and from there to the end. Other handlers and listeners may run in between.
\<close>

definition start_route_begin :: "string \<Rightarrow> state \<Rightarrow> (response + user) \<times> state" where
  "start_route_begin i st =
     (case find_user i (users st) of
        None \<Rightarrow> (Inl (Error 404 ''User not found''), st)
      | Some user \<Rightarrow>
          if \<not> truthy (mcpEndpoint user) then (Inl (Error 400 ''MCP Endpoint required''), st)
          else (Inr user, killUserBridge (user_id user) st))"

definition start_route_resume :: "start_env \<Rightarrow> user \<Rightarrow> state \<Rightarrow> response \<times> state" where
  "start_route_resume e user st =
     (case startUserBridge_resume e user st of
        (Returned b, st') \<Rightarrow> (Success, st')
      | (Threw, st') \<Rightarrow> (NoResponse, st'))"

text \<open>
  \<^verbatim>\<open>POST /api/users/:id/stop\<close> after its \<^verbatim>\<open>await killUserBridge(user.id)\<close>. \<open>data\<close> is the
  content of \<^verbatim>\<open>users.json\<close> as the handler read it before the \<^verbatim>\<open>await\<close>; it is
  modified and written back. Indexing with \<^verbatim>\<open>-1\<close> would throw.
\<close>

definition stop_route_resume :: "string \<Rightarrow> user list \<Rightarrow> state \<Rightarrow> response \<times> state" where
  "stop_route_resume i data st =
     (case find_user_index i data of
        None \<Rightarrow> (NoResponse, st)
      | Some idx \<Rightarrow> (Success, writeUsers (set_status idx Stopped PidNull data) st))"

definition stop_route_begin :: "string \<Rightarrow> state \<Rightarrow> (response + user list) \<times> state" where
  "stop_route_begin i st =
     (let data = users st in
      case find_user i data of
        None \<Rightarrow> (Inl (Error 404 ''User not found''), st)
      | Some user \<Rightarrow> (Inr data, killUserBridge (user_id user) st))"

definition stop_route :: "string \<Rightarrow> state \<Rightarrow> response \<times> state" where
  "stop_route i st =
     (let data = users st in
      case find_user i data of
        None \<Rightarrow> (Error 404 ''User not found'', st)
      | Some user \<Rightarrow> stop_route_resume i data (killUserBridge (user_id user) st))"

text \<open>\<^verbatim>\<open>data.users.splice(idx, 1)\<close>.\<close>

definition splice1 :: "nat \<Rightarrow> 'a list \<Rightarrow> 'a list" where
  "splice1 idx xs = take idx xs @ drop (Suc idx) xs"

text \<open>
  \<^verbatim>\<open>DELETE /api/users/:id\<close>. \<open>unlink_ok\<close> tells whether \<^verbatim>\<open>fs.unlinkSync\<close> removes the
  config file or throws; the exception is swallowed by the empty \<^verbatim>\<open>catch\<close>.
\<close>

definition delete_route :: "bool \<Rightarrow> string \<Rightarrow> state \<Rightarrow> response \<times> state" where
  "delete_route unlink_ok i st =
     (let data = users st in
      case find_user_index i data of
        None \<Rightarrow> (Error 404 ''User not found'', st)
      | Some idx \<Rightarrow>
          (let st1 = killUserBridge i st;
               st2 = st1\<lparr>trace := trace st1 @ [Unlink i]\<rparr>;
               st3 = (if unlink_ok then st2\<lparr>configs := (configs st2)(i := None)\<rparr> else st2)
           in (Success, writeUsers (splice1 idx data) st3)))"

text \<open>The decimal digits of a number, as \<^verbatim>\<open>`user_${Date.now()}`\<close> prints them.\<close>

fun string_of_nat :: "nat \<Rightarrow> string" where
  "string_of_nat n =
     (if n < 10 then [''0123456789'' ! n]
      else string_of_nat (n div 10) @ [''0123456789'' ! (n mod 10)])"

text \<open>A parsed request body: the properties of the JSON object; a property that is
  missing reads as \<^verbatim>\<open>undefined\<close>.\<close>

type_synonym body = "string \<rightharpoonup> jsval"

definition body_field :: "body \<Rightarrow> string \<Rightarrow> jsval" where
  "body_field b k = (case b k of None \<Rightarrow> JUndefined | Some v \<Rightarrow> v)"

text \<open>
  \<^verbatim>\<open>POST /api/users\<close>. \<open>now\<close> is the value of \<^verbatim>\<open>Date.now()\<close> and \<open>created\<close> that of
  \<^verbatim>\<open>new Date().toISOString()\<close>. Only the six destructured properties of the body
  are read. \<open>newUser\<close> is the object literal of that name.
\<close>

definition newUser :: "nat \<Rightarrow> string \<Rightarrow> body \<Rightarrow> user" where
  "newUser now created b = \<lparr>
     user_id = ''user_'' @ string_of_nat now,
     name = body_field b ''name'',
     mcpEndpoint = js_or (body_field b ''mcpEndpoint'') (JStr []),
     braveEnabled = js_or (body_field b ''braveEnabled'') (JBool False),
     braveApiKey = js_or (body_field b ''braveApiKey'') (JStr []),
     weatherEnabled = js_or (body_field b ''weatherEnabled'') (JBool False),
     feeds = js_or (body_field b ''feeds'') (JArr []),
     status = Stopped,
     pid = PidNull,
     createdAt = created\<rparr>"

definition create_route :: "nat \<Rightarrow> string \<Rightarrow> body \<Rightarrow> state \<Rightarrow> response \<times> state" where
  "create_route now created b st =
     (let data = users st in
      if \<not> truthy (body_field b ''name'') then (Error 400 ''Name is required'', st)
      else (SuccessUser (newUser now created b),
            writeUsers (data @ [newUser now created b]) st))"

section \<open>Requests that overlap\<close>

text \<open>
  The server runs one piece of JavaScript at a time, and a handler gives up control
  only at an \<^verbatim>\<open>await\<close>. The start and the stop handler have one \<^verbatim>\<open>await\<close> each, that of
  \<^verbatim>\<open>killUserBridge\<close>, whose promise resolves when the \<^verbatim>\<open>wmic\<close> command of that call has
  ended. Between the two pieces of a handler, requests may arrive, suspended
  handlers of other requests may resume (in any order, as their commands end), and
  \<^verbatim>\<open>'exit'\<close> listeners may run. There is no lock in the code.
\<close>

datatype request = StartReq start_env string | StopReq string

text \<open>What a suspended handler holds: the start handler the \<open>user\<close> object it
  found, the stop handler the \<open>data\<close> it read.\<close>

datatype continuation = StartCont start_env user | StopCont string "user list"

datatype event =
    Arrive request
  | Resume nat
  | ChildExit user child_process

record server =
  current :: state
  suspended :: "continuation list"
  answers :: "response list"

fun arrive :: "request \<Rightarrow> server \<Rightarrow> server" where
  "arrive (StartReq e i) sv =
     (case start_route_begin i (current sv) of
        (Inl r, s) \<Rightarrow> sv\<lparr>current := s, answers := answers sv @ [r]\<rparr>
      | (Inr user, s) \<Rightarrow> sv\<lparr>current := s, suspended := suspended sv @ [StartCont e user]\<rparr>)"
| "arrive (StopReq i) sv =
     (case stop_route_begin i (current sv) of
        (Inl r, s) \<Rightarrow> sv\<lparr>current := s, answers := answers sv @ [r]\<rparr>
      | (Inr data, s) \<Rightarrow> sv\<lparr>current := s, suspended := suspended sv @ [StopCont i data]\<rparr>)"

fun resume :: "continuation \<Rightarrow> state \<Rightarrow> response \<times> state" where
  "resume (StartCont e user) s = start_route_resume e user s"
| "resume (StopCont i data) s = stop_route_resume i data s"

text \<open>\<open>Resume k\<close> runs the \<open>k\<close>-th suspended handler to its end.\<close>

fun step :: "event \<Rightarrow> server \<Rightarrow> server" where
  "step (Arrive rq) sv = arrive rq sv"
| "step (Resume k) sv =
     (if k < length (suspended sv)
      then (case resume (suspended sv ! k) (current sv) of
              (r, s) \<Rightarrow> sv\<lparr>current := s, suspended := splice1 k (suspended sv),
                            answers := answers sv @ [r]\<rparr>)
      else sv)"
| "step (ChildExit user proc) sv = sv\<lparr>current := on_exit user proc (current sv)\<rparr>"

fun run :: "event list \<Rightarrow> server \<Rightarrow> server" where
  "run [] sv = sv"
| "run (ev # evs) sv = run evs (step ev sv)"

definition idle :: "state \<Rightarrow> server" where
  "idle s = \<lparr>current = s, suspended = [], answers = []\<rparr>"

text \<open>The two requests one after the other, and overlapping.\<close>

definition start_then_stop :: "start_env \<Rightarrow> string \<Rightarrow> event list" where
  "start_then_stop e i = [Arrive (StartReq e i), Resume 0, Arrive (StopReq i), Resume 0]"

definition stop_then_start :: "start_env \<Rightarrow> string \<Rightarrow> event list" where
  "stop_then_start e i = [Arrive (StopReq i), Resume 0, Arrive (StartReq e i), Resume 0]"

definition stop_overtaken_by_start :: "start_env \<Rightarrow> string \<Rightarrow> event list" where
  "stop_overtaken_by_start e i = [Arrive (StopReq i), Arrive (StartReq e i), Resume 1, Resume 0]"

text \<open>A start request, then a stop request before the start handler has resumed; the
  handlers resume in the order of arrival.\<close>

definition start_overlapped_by_stop :: "start_env \<Rightarrow> string \<Rightarrow> event list" where
  "start_overlapped_by_stop e i = [Arrive (StartReq e i), Arrive (StopReq i), Resume 0, Resume 0]"

section \<open>Example inputs\<close>

text \<open>The user of the scenario in the specification: an endpoint, search disabled,
  weather enabled, not running.\<close>

definition user1 :: user where
  "user1 = \<lparr>user_id = ''user_1'', name = JStr ''Ann'', mcpEndpoint = JStr ''wss://x'',
     braveEnabled = JBool False, braveApiKey = JStr [], weatherEnabled = JBool True,
     feeds = JArr [], status = Stopped, pid = PidNull,
     createdAt = ''2025-01-01T00:00:00.000Z''\<rparr>"

text \<open>A user whose endpoint has been emptied while the bridge is running as process 11.\<close>

definition user2 :: user where
  "user2 = \<lparr>user_id = ''user_2'', name = JStr ''Bob'', mcpEndpoint = JStr [],
     braveEnabled = JBool True, braveApiKey = JStr ''key'', weatherEnabled = JBool False,
     feeds = JArr [], status = Running, pid = PidNum 11,
     createdAt = ''2025-01-02T00:00:00.000Z''\<rparr>"

definition state1 :: state where
  "state1 = \<lparr>users = [user1], bridgeProcesses = Map.empty, configs = Map.empty, trace = []\<rparr>"

definition state2 :: state where
  "state2 = \<lparr>users = [user1, user2],
     bridgeProcesses = [''user_2'' \<mapsto> Handle (ChildProcess (Some 11)) (Some 11)],
     configs = [''user_2'' \<mapsto> mcpServers user2], trace = []\<rparr>"

text \<open>A request body that names the user and tries to set \<^verbatim>\<open>status\<close> and \<^verbatim>\<open>pid\<close>.\<close>

definition body1 :: body where
  "body1 = [''name'' \<mapsto> JStr ''Eve'', ''status'' \<mapsto> JStr ''running'', ''pid'' \<mapsto> JNum 4242]"

text \<open>Answers of the environment: the child is launched as process 7 or 8, the child
  cannot be launched, \<^verbatim>\<open>spawn\<close> throws.\<close>

definition env7 :: start_env where
  "env7 = \<lparr>config_write_ok = True, spawn_result = Launched 7\<rparr>"

definition env8 :: start_env where
  "env8 = \<lparr>config_write_ok = True, spawn_result = Launched 8\<rparr>"

definition env_failed :: start_env where
  "env_failed = \<lparr>config_write_ok = True, spawn_result = LaunchFailed\<rparr>"

definition env_threw :: start_env where
  "env_threw = \<lparr>config_write_ok = True, spawn_result = SpawnThrew\<rparr>"

text \<open>The first user while the bridge runs as process 7.\<close>

definition user1_running :: user where
  "user1_running = user1\<lparr>status := Running, pid := PidNum 7\<rparr>"

definition state3 :: state where
  "state3 = \<lparr>users = [user1_running],
     bridgeProcesses = [''user_1'' \<mapsto> Handle (ChildProcess (Some 7)) (Some 7)],
     configs = [''user_1'' \<mapsto> mcpServers user1], trace = []\<rparr>"

text \<open>A start, then a second start of the same user (each run to its end), and the
  same followed by the exit notification of the first child.\<close>

definition start_twice :: "event list" where
  "start_twice =
     [Arrive (StartReq env7 ''user_1''), Resume 0, Arrive (StartReq env8 ''user_1''), Resume 0]"

definition start_twice_then_exit :: "event list" where
  "start_twice_then_exit = start_twice @ [ChildExit user1 (ChildProcess (Some 7))]"

text \<open>Two start requests of the first user that overlap: both arrive before either
  handler resumes.\<close>

definition overlapping_starts :: "event list" where
  "overlapping_starts =
     [Arrive (StartReq env7 ''user_1''), Arrive (StartReq env8 ''user_1''), Resume 0, Resume 0]"

text \<open>A start of the running first user in which \<^verbatim>\<open>spawn\<close> throws, with the exit
  notification of the child that the start killed delivered while the handler is
  suspended.\<close>

definition failed_start_with_exit :: "event list" where
  "failed_start_with_exit =
     [Arrive (StartReq env_threw ''user_1''), ChildExit user1_running (ChildProcess (Some 7)),
      Resume 0]"

section \<open>Lemmas on the helper functions\<close>

lemma findIndex_bound: "findIndex P xs = Some k \<Longrightarrow> k < length xs \<and> P (xs ! k)"
  by (induction xs arbitrary: k) (auto split: if_splits)

lemma findIndex_map: "findIndex P (map f xs) = findIndex (\<lambda>x. P (f x)) xs"
  by (induction xs) auto

lemma find_findIndex: "List.find P xs = map_option (\<lambda>k. xs ! k) (findIndex P xs)"
  by (induction xs) (auto simp: option.map_comp comp_def)

lemma find_user_by_index: "find_user i us = map_option (\<lambda>k. us ! k) (find_user_index i us)"
  by (simp add: find_user_def find_user_index_def find_findIndex)

lemma find_user_index_bound:
  "find_user_index i us = Some k \<Longrightarrow> k < length us \<and> user_id (us ! k) = i"
  unfolding find_user_index_def by (drule findIndex_bound) simp

lemma find_user_id: "find_user i us = Some u \<Longrightarrow> user_id u = i"
  by (auto simp: find_user_by_index dest: find_user_index_bound)

lemma user_id_set_status: "map user_id (set_status k s p us) = map user_id us"
  by (simp add: set_status_def map_update) (metis list_update_id map_update)

lemma find_user_index_ids: "find_user_index i us = findIndex (\<lambda>j. j = i) (map user_id us)"
  by (simp add: find_user_index_def findIndex_map)

lemma find_user_index_set_status:
  "find_user_index i (set_status k s p us) = find_user_index i us"
  by (simp add: find_user_index_ids user_id_set_status)

lemma find_user_set_status:
  "find_user_index i us = Some k \<Longrightarrow>
   find_user i (set_status k s p us) = Some ((us ! k)\<lparr>status := s, pid := p\<rparr>)"
  by (frule find_user_index_bound)
     (simp add: find_user_by_index find_user_index_set_status, simp add: set_status_def)

lemma set_status_idem:
  "set_status k s p (set_status k s p us) = set_status k s p us"
  by (cases "k < length us") (simp_all add: set_status_def list_update_beyond)

lemma killUserBridge_users [simp]: "users (killUserBridge i s) = users s"
  by (simp add: killUserBridge_def split: option.split)

lemma killUserBridge_configs [simp]: "configs (killUserBridge i s) = configs s"
  by (simp add: killUserBridge_def split: option.split)

lemma killUserBridge_registry [simp]:
  "bridgeProcesses (killUserBridge i s) = (bridgeProcesses s)(i := None)"
  by (auto simp: killUserBridge_def split: option.split)

lemma killUserBridge_trace:
  "trace (killUserBridge i s)
     = trace s @ (case bridgeProcesses s i of None \<Rightarrow> [] | Some h \<Rightarrow> [Kill (process h)]) @ [Sweep i]"
  by (simp add: killUserBridge_def split: option.split)

section \<open>Lemmas on the start and stop handlers\<close>

text \<open>\<^verbatim>\<open>startUserBridge\<close> after its \<^verbatim>\<open>await\<close>, branch by branch.\<close>

lemma resume_unfold:
  "startUserBridge_resume e user s =
     (if \<not> truthy (mcpEndpoint user) then (Returned False, s)
      else if \<not> config_write_ok e
        then (Threw, s\<lparr>trace := trace s @ [WriteConfig (user_id user)]\<rparr>)
      else if spawn_result e = SpawnThrew
        then (Threw, s\<lparr>configs := (configs s)(user_id user \<mapsto> mcpServers user),
                         trace := trace s @ [WriteConfig (user_id user),
                           Spawn (mcpEndpoint user) (user_id user) (js_or (braveApiKey user) (JStr []))]\<rparr>)
      else (Returned True,
            s\<lparr>users := (case find_user_index (user_id user) (users s) of
                           None \<Rightarrow> users s
                         | Some k \<Rightarrow> set_status k Running
                             (pid_value (proc_pid (spawned_child (spawn_result e)))) (users s)),
               bridgeProcesses := (bridgeProcesses s)(user_id user \<mapsto>
                  Handle (spawned_child (spawn_result e)) (proc_pid (spawned_child (spawn_result e)))),
               configs := (configs s)(user_id user \<mapsto> mcpServers user),
               trace := trace s @ [WriteConfig (user_id user),
                           Spawn (mcpEndpoint user) (user_id user) (js_or (braveApiKey user) (JStr []))]
                         @ (case find_user_index (user_id user) (users s) of
                              None \<Rightarrow> [] | Some k \<Rightarrow> [WriteUsers])\<rparr>))"
  by (cases "spawn_result e")
     (simp_all add: startUserBridge_resume_def generateUserConfig_def Let_def writeUsers_def
               split: option.split)

lemma resume_outcome:
  "fst (startUserBridge_resume e user s)
     = (if \<not> truthy (mcpEndpoint user) then Returned False
        else if \<not> config_write_ok e \<or> spawn_result e = SpawnThrew then Threw
        else Returned True)"
  by (simp add: resume_unfold)

lemma resume_not_started:
  "fst (startUserBridge_resume e user s) \<noteq> Returned True
   \<Longrightarrow> users (snd (startUserBridge_resume e user s)) = users s
     \<and> bridgeProcesses (snd (startUserBridge_resume e user s)) = bridgeProcesses s"
  by (simp add: resume_unfold split: if_splits)

lemma resume_started:
  assumes "fst (startUserBridge_resume e user s) = Returned True"
  shows "bridgeProcesses (snd (startUserBridge_resume e user s))
           = (bridgeProcesses s)(user_id user \<mapsto>
                Handle (spawned_child (spawn_result e)) (proc_pid (spawned_child (spawn_result e))))"
    and "configs (snd (startUserBridge_resume e user s))
           = (configs s)(user_id user \<mapsto> mcpServers user)"
    and "users (snd (startUserBridge_resume e user s))
           = (case find_user_index (user_id user) (users s) of
                None \<Rightarrow> users s
              | Some k \<Rightarrow> set_status k Running
                            (pid_value (proc_pid (spawned_child (spawn_result e)))) (users s))"
    and "trace (snd (startUserBridge_resume e user s))
           = trace s @ [WriteConfig (user_id user),
                        Spawn (mcpEndpoint user) (user_id user) (js_or (braveApiKey user) (JStr []))]
               @ (case find_user_index (user_id user) (users s) of
                    None \<Rightarrow> [] | Some k \<Rightarrow> [WriteUsers])"
  using assms by (simp_all add: resume_unfold split: if_splits)

text \<open>Called with a user without endpoint, \<^verbatim>\<open>startUserBridge\<close> has already run
  \<^verbatim>\<open>killUserBridge\<close> when it returns \<^verbatim>\<open>false\<close>. The start route never calls it so.\<close>

lemma startUserBridge_falsy_endpoint:
  "\<not> truthy (mcpEndpoint user)
   \<Longrightarrow> startUserBridge e user st = (Returned False, killUserBridge (user_id user) st)"
  by (simp add: startUserBridge_def resume_unfold)

lemma start_route_not_started:
  "fst (start_route e i st) \<noteq> Success \<Longrightarrow> users (snd (start_route e i st)) = users st"
proof (cases "find_user i (users st)")
  case None
  then show ?thesis by (simp add: start_route_def)
next
  case (Some user)
  assume ns: "fst (start_route e i st) \<noteq> Success"
  show ?thesis
  proof (cases "truthy (mcpEndpoint user)")
    case False
    with Some show ?thesis by (simp add: start_route_def)
  next
    case True
    obtain r s' where rs: "startUserBridge e user st = (r, s')"
      by (cases "startUserBridge e user st")
    with Some True ns have "r = Threw"
      by (cases r) (simp_all add: start_route_def)
    with rs have "fst (startUserBridge_resume e user (killUserBridge (user_id user) st)) \<noteq> Returned True"
      by (simp add: startUserBridge_def)
    from resume_not_started [OF this] have "users s' = users st"
      using rs by (simp add: startUserBridge_def)
    with Some True rs \<open>r = Threw\<close> show ?thesis
      by (simp add: start_route_def)
  qed
qed

text \<open>A handler that runs alone is the route function; two requests one after the
  other are the composition of the two route functions.\<close>

lemma start_route_split:
  "start_route e i st =
     (case start_route_begin i st of
        (Inl r, s) \<Rightarrow> (r, s)
      | (Inr user, s) \<Rightarrow> start_route_resume e user s)"
  by (simp add: start_route_def start_route_begin_def start_route_resume_def startUserBridge_def
           split: option.split)

lemma stop_route_split:
  "stop_route i st =
     (case stop_route_begin i st of
        (Inl r, s) \<Rightarrow> (r, s)
      | (Inr data, s) \<Rightarrow> stop_route_resume i data s)"
  by (simp add: stop_route_def stop_route_begin_def Let_def split: option.split)

lemma run_start_alone:
  "suspended sv = [] \<Longrightarrow>
   step (Resume 0) (step (Arrive (StartReq e i)) sv)
     = sv\<lparr>current := snd (start_route e i (current sv)),
          answers := answers sv @ [fst (start_route e i (current sv))]\<rparr>"
  by (cases sv)
     (auto simp: start_route_split splice1_def split: prod.split sum.split)

lemma run_stop_alone:
  "suspended sv = [] \<Longrightarrow>
   step (Resume 0) (step (Arrive (StopReq i)) sv)
     = sv\<lparr>current := snd (stop_route i (current sv)),
          answers := answers sv @ [fst (stop_route i (current sv))]\<rparr>"
  by (cases sv)
     (auto simp: stop_route_split splice1_def split: prod.split sum.split)

lemma run_start_then_stop:
  "current (run (start_then_stop e i) (idle st)) = snd (stop_route i (snd (start_route e i st)))"
  by (simp add: start_then_stop_def run_start_alone run_stop_alone idle_def
           del: step.simps arrive.simps)

lemma run_stop_then_start:
  "current (run (stop_then_start e i) (idle st)) = snd (start_route e i (snd (stop_route i st)))"
  by (simp add: stop_then_start_def run_start_alone run_stop_alone idle_def
           del: step.simps arrive.simps)

lemma stop_route_found:
  assumes "find_user_index i (users st) = Some k"
  shows "stop_route i st
           = (Success, writeUsers (set_status k Stopped PidNull (users st)) (killUserBridge i st))"
proof -
  from assms have "find_user i (users st) = Some (users st ! k)"
    by (simp add: find_user_by_index)
  moreover from assms have "user_id (users st ! k) = i"
    by (simp add: find_user_index_bound)
  ultimately show ?thesis
    using assms by (simp add: stop_route_def stop_route_resume_def)
qed

lemma start_route_found:
  assumes "find_user i (users st) = Some user" and "truthy (mcpEndpoint user)"
    and "config_write_ok e" and "spawn_result e = Launched p"
    and "find_user_index i (users st) = Some k"
  shows "fst (start_route e i st) = Success"
    and "bridgeProcesses (snd (start_route e i st))
           = (bridgeProcesses st)(i \<mapsto> Handle (ChildProcess (Some p)) (Some p))"
    and "users (snd (start_route e i st)) = set_status k Running (PidNum p) (users st)"
proof -
  from assms(1) have uid: "user_id user = i" by (rule find_user_id)
  have unf: "startUserBridge e user st = (Returned True,
        snd (startUserBridge_resume e user (killUserBridge i st)))"
    using assms(2-4) uid by (simp add: startUserBridge_def resume_unfold)
  have ok: "fst (startUserBridge_resume e user (killUserBridge i st)) = Returned True"
    using assms(2-4) by (simp add: resume_outcome)
  show "fst (start_route e i st) = Success"
    using assms(1,2) unf by (simp add: start_route_def)
  show "bridgeProcesses (snd (start_route e i st))
           = (bridgeProcesses st)(i \<mapsto> Handle (ChildProcess (Some p)) (Some p))"
    using assms(1,2,4) unf uid by (simp add: start_route_def resume_started(1) [OF ok])
  show "users (snd (start_route e i st)) = set_status k Running (PidNum p) (users st)"
    using assms(1,2,4,5) unf uid by (simp add: start_route_def resume_started(3) [OF ok])
qed

text \<open>The \<^verbatim>\<open>'exit'\<close> listener when the record exists: the entry under the user id is
  removed, whatever it is, and the record is set to stopped.\<close>

lemma on_exit_found:
  "find_user_index (user_id user) (users s) = Some k \<Longrightarrow>
   on_exit user proc s
     = writeUsers (set_status k Stopped PidNull (users s))
         (s\<lparr>bridgeProcesses := (bridgeProcesses s)(user_id user := None)\<rparr>)"
  by (simp add: on_exit_def)

text \<open>After a stop that ran to its end, a late exit notification for the user
  changes neither the records nor the registry.\<close>

lemma on_exit_after_stop:
  assumes "find_user i (users st) = Some user"
  shows "users (on_exit user proc (snd (stop_route i st))) = users (snd (stop_route i st))
    \<and> bridgeProcesses (on_exit user proc (snd (stop_route i st)))
        = bridgeProcesses (snd (stop_route i st))"
proof -
  from assms obtain k where k: "find_user_index i (users st) = Some k"
    by (auto simp: find_user_by_index)
  from assms have uid: "user_id user = i" by (rule find_user_id)
  define s where "s = snd (stop_route i st)"
  have s: "s = writeUsers (set_status k Stopped PidNull (users st)) (killUserBridge i st)"
    unfolding s_def by (simp add: stop_route_found [OF k])
  have ks: "find_user_index (user_id user) (users s) = Some k"
    by (simp add: s writeUsers_def find_user_index_set_status k uid)
  have "users (on_exit user proc s) = users s"
    by (simp add: on_exit_found [OF ks] writeUsers_def) (simp add: s writeUsers_def set_status_idem)
  moreover have "bridgeProcesses (on_exit user proc s) = bridgeProcesses s"
    by (simp add: on_exit_found [OF ks] writeUsers_def) (simp add: s writeUsers_def uid)
  ultimately show ?thesis
    by (simp add: s_def)
qed

text \<open>The two halves of the start and stop handlers, and single steps of the server.\<close>

lemma start_route_begin_users: "users (snd (start_route_begin i st)) = users st"
  by (simp add: start_route_begin_def split: option.split)

lemma start_route_begin_suspended:
  assumes "fst (start_route_begin i st) = Inr user"
  shows "find_user i (users st) = Some user" and "truthy (mcpEndpoint user)"
    and "user_id user = i" and "snd (start_route_begin i st) = killUserBridge i st"
proof -
  from assms show found: "find_user i (users st) = Some user"
    by (simp add: start_route_begin_def split: option.splits if_splits)
  from found show uid: "user_id user = i" by (rule find_user_id)
  from assms found show "truthy (mcpEndpoint user)"
    by (simp add: start_route_begin_def split: if_splits)
  from assms found uid show "snd (start_route_begin i st) = killUserBridge i st"
    by (simp add: start_route_begin_def split: if_splits)
qed

lemma start_route_resume_outcome:
  "fst (start_route_resume e user s)
     = (if fst (startUserBridge_resume e user s) = Threw then NoResponse else Success)"
  by (cases "startUserBridge_resume e user s"; cases "fst (startUserBridge_resume e user s)")
     (simp_all add: start_route_resume_def)

lemma start_route_resume_state:
  "snd (start_route_resume e user s) = snd (startUserBridge_resume e user s)"
  by (cases "startUserBridge_resume e user s"; cases "fst (startUserBridge_resume e user s)")
     (simp_all add: start_route_resume_def)

lemma stop_route_begin_found:
  assumes "find_user i (users st) = Some user"
  shows "stop_route_begin i st = (Inr (users st), killUserBridge i st)"
  using assms find_user_id [OF assms] by (simp add: stop_route_begin_def)

lemma stop_route_resume_found:
  "find_user_index i data = Some k \<Longrightarrow>
   stop_route_resume i data s = (Success, writeUsers (set_status k Stopped PidNull data) s)"
  by (simp add: stop_route_resume_def)


lemma run_snoc: "run (evs @ [ev]) sv = step ev (run evs sv)"
  by (induction evs arbitrary: sv) simp_all

lemma step_arrive_start:
  "current (step (Arrive (StartReq e i)) sv) = snd (start_route_begin i (current sv))"
  by (cases "start_route_begin i (current sv)"; cases "fst (start_route_begin i (current sv))")
     simp_all

lemma step_resume:
  "k < length (suspended sv) \<Longrightarrow>
   current (step (Resume k) sv) = snd (resume (suspended sv ! k) (current sv))
   \<and> answers (step (Resume k) sv) = answers sv @ [fst (resume (suspended sv ! k) (current sv))]"
  by (cases "resume (suspended sv ! k) (current sv)") simp

lemma step_exit: "current (step (ChildExit user proc) sv) = on_exit user proc (current sv)"
  by simp

text \<open>The stop handler run from its beginning to its end with nothing in between.\<close>

lemma stop_route_alone:
  assumes found: "find_user i (users st) = Some user"
  shows "fst (stop_route i st) = Success
    \<and> bridgeProcesses (snd (stop_route i st)) i = None
    \<and> map_option status (find_user i (users (snd (stop_route i st)))) = Some Stopped
    \<and> map_option pid (find_user i (users (snd (stop_route i st)))) = Some PidNull
    \<and> fst (stop_route i (snd (stop_route i st))) = Success
    \<and> users (snd (stop_route i (snd (stop_route i st)))) = users (snd (stop_route i st))
    \<and> bridgeProcesses (snd (stop_route i (snd (stop_route i st)))) = bridgeProcesses (snd (stop_route i st))
    \<and> configs (snd (stop_route i (snd (stop_route i st)))) = configs (snd (stop_route i st))
    \<and> (bridgeProcesses st i = None \<longrightarrow>
          bridgeProcesses (snd (stop_route i st)) = bridgeProcesses st
          \<and> trace (snd (stop_route i st)) = trace st @ [Sweep i, WriteUsers])"
proof -
  from found obtain k where k: "find_user_index i (users st) = Some k" and uk: "users st ! k = user"
    by (auto simp: find_user_by_index)
  from found have uid: "user_id user = i" by (rule find_user_id)
  define st' where "st' = writeUsers (set_status k Stopped PidNull (users st)) (killUserBridge i st)"
  have once: "stop_route i st = (Success, st')"
    by (simp add: stop_route_def stop_route_resume_def found k uid st'_def)
  have users': "users st' = set_status k Stopped PidNull (users st)"
    by (simp add: st'_def writeUsers_def)
  have k': "find_user_index i (users st') = Some k"
    by (simp add: users' find_user_index_set_status k)
  have found': "find_user i (users st') = Some ((users st ! k)\<lparr>status := Stopped, pid := PidNull\<rparr>)"
    by (simp add: users' find_user_set_status [OF k])
  have twice: "stop_route i st' = (Success, writeUsers (set_status k Stopped PidNull (users st')) (killUserBridge i st'))"
    using find_user_id [OF found'] by (simp add: stop_route_def stop_route_resume_def found' k')
  have reg': "bridgeProcesses st' = (bridgeProcesses st)(i := None)"
    by (simp add: st'_def writeUsers_def)
  have cfg': "configs st' = configs st"
    by (simp add: st'_def writeUsers_def)
  have tr': "trace st' = trace st
      @ (case bridgeProcesses st i of None \<Rightarrow> [] | Some h \<Rightarrow> [Kill (process h)]) @ [Sweep i, WriteUsers]"
    by (simp add: st'_def writeUsers_def killUserBridge_trace)
  define st'' where "st'' = writeUsers (set_status k Stopped PidNull (users st')) (killUserBridge i st')"
  have users'': "users st'' = users st'"
    by (simp add: st''_def writeUsers_def users' set_status_idem)
  have reg'': "bridgeProcesses st'' = bridgeProcesses st'"
    by (simp add: st''_def writeUsers_def reg')
  have cfg'': "configs st'' = configs st'"
    by (simp add: st''_def writeUsers_def)
  have noop: "bridgeProcesses st i = None \<longrightarrow>
      bridgeProcesses st' = bridgeProcesses st \<and> trace st' = trace st @ [Sweep i, WriteUsers]"
    by (auto simp: reg' tr')
  from once twice found' users'' reg'' cfg'' noop reg' show ?thesis
    by (simp add: st''_def)
qed

section \<open>The registry holds one handle per user\<close>

text \<open>
  Claim C1, as stated, does not hold in one part. \<open>bridgeProcesses\<close> is keyed by user
  id, so it never holds two handles for a user, and after a successful start it
  holds exactly the handle of the new child. But a start does not always retire the
  handle that exists when it registers the new one: it retires the handle registered
  when it is invoked, is then suspended at its \<^verbatim>\<open>await\<close>, and registers by plain
  assignment when it resumes. Two start requests for the same user arrive before
  either handler resumes; the first resumes and registers process 7, the second
  resumes and registers process 8 over it. Both answer success, and process 7 is
  never killed.
\<close>

theorem overlapping_starts_overwrite_handle:
  "answers (run overlapping_starts (idle state1)) = [Success, Success]
   \<and> bridgeProcesses (current (run (take 3 overlapping_starts) (idle state1))) ''user_1''
       = Some (Handle (ChildProcess (Some 7)) (Some 7))
   \<and> bridgeProcesses (current (run overlapping_starts (idle state1))) ''user_1''
       = Some (Handle (ChildProcess (Some 8)) (Some 8))
   \<and> trace (current (run overlapping_starts (idle state1)))
       = [Sweep ''user_1'', Sweep ''user_1'',
          WriteConfig ''user_1'', Spawn (JStr ''wss://x'') ''user_1'' (JStr []), WriteUsers,
          WriteConfig ''user_1'', Spawn (JStr ''wss://x'') ''user_1'' (JStr []), WriteUsers]
   \<and> Kill (ChildProcess (Some 7)) \<notin> set (trace (current (run overlapping_starts (idle state1))))"
  by code_simp

text \<open>
  Claim C1, amended. In every state that any sequence of requests, resumptions and
  exit notifications reaches, \<open>bridgeProcesses\<close> holds at most one handle for a user
  id. When a start request is taken up, the handle registered for the user at that
  moment is retired: its child is killed and the entry removed before the handler
  is suspended. Whenever \<^verbatim>\<open>startUserBridge\<close> then returns \<^verbatim>\<open>true\<close>, from whatever state it
  resumed, the entry of the user is exactly the handle of the child just spawned and
  the entries of other users are untouched; this second half kills nothing, so a
  handle registered meanwhile is overwritten, not retired. In a start that runs with
  nothing in between, the kill of the child tracked before comes first in the calls
  to the environment, before the config write and the spawn.
\<close>

theorem start_registers_one_handle:
  "card {h. bridgeProcesses (current (run evs sv)) i = Some h} \<le> 1
   \<and> (fst (start_route_begin i (current (run evs sv))) = Inr user \<longrightarrow>
        bridgeProcesses (current (run (evs @ [Arrive (StartReq e i)]) sv)) i = None
        \<and> trace (current (run (evs @ [Arrive (StartReq e i)]) sv))
            = trace (current (run evs sv))
              @ (case bridgeProcesses (current (run evs sv)) i of
                   None \<Rightarrow> [] | Some old \<Rightarrow> [Kill (process old)])
              @ [Sweep i])
   \<and> (k < length (suspended (run evs sv)) \<and> suspended (run evs sv) ! k = StartCont e user
        \<and> fst (startUserBridge_resume e user (current (run evs sv))) = Returned True \<longrightarrow>
        {h. bridgeProcesses (current (run (evs @ [Resume k]) sv)) (user_id user) = Some h}
          = {Handle (spawned_child (spawn_result e)) (proc_pid (spawned_child (spawn_result e)))}
        \<and> (\<forall>j. j \<noteq> user_id user \<longrightarrow>
              bridgeProcesses (current (run (evs @ [Resume k]) sv)) j
                = bridgeProcesses (current (run evs sv)) j)
        \<and> trace (current (run (evs @ [Resume k]) sv))
            = trace (current (run evs sv))
              @ [WriteConfig (user_id user),
                 Spawn (mcpEndpoint user) (user_id user) (js_or (braveApiKey user) (JStr []))]
              @ (case find_user_index (user_id user) (users (current (run evs sv))) of
                   None \<Rightarrow> [] | Some n \<Rightarrow> [WriteUsers]))
   \<and> (fst (startUserBridge e user st) = Returned True \<longrightarrow>
        card {h. bridgeProcesses (snd (startUserBridge e user st)) (user_id user) = Some h} = 1
        \<and> trace (snd (startUserBridge e user st))
            = trace st
              @ (case bridgeProcesses st (user_id user) of
                   None \<Rightarrow> [] | Some old \<Rightarrow> [Kill (process old)])
              @ [Sweep (user_id user), WriteConfig (user_id user),
                 Spawn (mcpEndpoint user) (user_id user) (js_or (braveApiKey user) (JStr []))]
              @ (case find_user_index (user_id user) (users st) of
                   None \<Rightarrow> [] | Some n \<Rightarrow> [WriteUsers]))"
proof -
  define s where "s = current (run evs sv)"
  have one: "card {h. bridgeProcesses s i = Some h} \<le> 1"
    by (cases "bridgeProcesses s i") simp_all
  have retired: "fst (start_route_begin i s) = Inr user \<longrightarrow>
        bridgeProcesses (current (run (evs @ [Arrive (StartReq e i)]) sv)) i = None
        \<and> trace (current (run (evs @ [Arrive (StartReq e i)]) sv))
            = trace s
              @ (case bridgeProcesses s i of None \<Rightarrow> [] | Some old \<Rightarrow> [Kill (process old)])
              @ [Sweep i]"
    unfolding run_snoc step_arrive_start s_def [symmetric]
    by (simp add: start_route_begin_suspended(4) killUserBridge_trace)
  have registered: "k < length (suspended (run evs sv)) \<and> suspended (run evs sv) ! k = StartCont e user
        \<and> fst (startUserBridge_resume e user s) = Returned True \<longrightarrow>
        {h. bridgeProcesses (current (run (evs @ [Resume k]) sv)) (user_id user) = Some h}
          = {Handle (spawned_child (spawn_result e)) (proc_pid (spawned_child (spawn_result e)))}
        \<and> (\<forall>j. j \<noteq> user_id user \<longrightarrow>
              bridgeProcesses (current (run (evs @ [Resume k]) sv)) j = bridgeProcesses s j)
        \<and> trace (current (run (evs @ [Resume k]) sv))
            = trace s
              @ [WriteConfig (user_id user),
                 Spawn (mcpEndpoint user) (user_id user) (js_or (braveApiKey user) (JStr []))]
              @ (case find_user_index (user_id user) (users s) of
                   None \<Rightarrow> [] | Some n \<Rightarrow> [WriteUsers])"
  proof
    assume h: "k < length (suspended (run evs sv)) \<and> suspended (run evs sv) ! k = StartCont e user
        \<and> fst (startUserBridge_resume e user s) = Returned True"
    then have ok: "fst (startUserBridge_resume e user s) = Returned True" by simp
    from h have cur: "current (run (evs @ [Resume k]) sv) = snd (startUserBridge_resume e user s)"
      by (simp add: run_snoc step_resume start_route_resume_state s_def del: step.simps)
    show "{h. bridgeProcesses (current (run (evs @ [Resume k]) sv)) (user_id user) = Some h}
          = {Handle (spawned_child (spawn_result e)) (proc_pid (spawned_child (spawn_result e)))}
        \<and> (\<forall>j. j \<noteq> user_id user \<longrightarrow>
              bridgeProcesses (current (run (evs @ [Resume k]) sv)) j = bridgeProcesses s j)
        \<and> trace (current (run (evs @ [Resume k]) sv))
            = trace s
              @ [WriteConfig (user_id user),
                 Spawn (mcpEndpoint user) (user_id user) (js_or (braveApiKey user) (JStr []))]
              @ (case find_user_index (user_id user) (users s) of
                   None \<Rightarrow> [] | Some n \<Rightarrow> [WriteUsers])"
      unfolding cur by (auto simp: resume_started(1,4) [OF ok])
  qed
  have whole: "fst (startUserBridge e user st) = Returned True \<longrightarrow>
        card {h. bridgeProcesses (snd (startUserBridge e user st)) (user_id user) = Some h} = 1
        \<and> trace (snd (startUserBridge e user st))
            = trace st
              @ (case bridgeProcesses st (user_id user) of
                   None \<Rightarrow> [] | Some old \<Rightarrow> [Kill (process old)])
              @ [Sweep (user_id user), WriteConfig (user_id user),
                 Spawn (mcpEndpoint user) (user_id user) (js_or (braveApiKey user) (JStr []))]
              @ (case find_user_index (user_id user) (users st) of
                   None \<Rightarrow> [] | Some n \<Rightarrow> [WriteUsers])"
  proof
    assume ok: "fst (startUserBridge e user st) = Returned True"
    then have ok': "fst (startUserBridge_resume e user (killUserBridge (user_id user) st)) = Returned True"
      by (simp add: startUserBridge_def)
    show "card {h. bridgeProcesses (snd (startUserBridge e user st)) (user_id user) = Some h} = 1
        \<and> trace (snd (startUserBridge e user st))
            = trace st
              @ (case bridgeProcesses st (user_id user) of
                   None \<Rightarrow> [] | Some old \<Rightarrow> [Kill (process old)])
              @ [Sweep (user_id user), WriteConfig (user_id user),
                 Spawn (mcpEndpoint user) (user_id user) (js_or (braveApiKey user) (JStr []))]
              @ (case find_user_index (user_id user) (users st) of
                   None \<Rightarrow> [] | Some n \<Rightarrow> [WriteUsers])"
      by (simp add: startUserBridge_def resume_started(1,4) [OF ok'] killUserBridge_trace)
  qed
  from one retired registered whole show ?thesis
    unfolding s_def by blast
qed

theorem start_registers_one_handle_witness:
  "fst (start_route_begin ''user_1'' (current (run [] (idle state3)))) = Inr user1_running
   \<and> bridgeProcesses (current (run [] (idle state3))) ''user_1''
       = Some (Handle (ChildProcess (Some 7)) (Some 7))
   \<and> bridgeProcesses (current (run ([] @ [Arrive (StartReq env8 ''user_1'')]) (idle state3))) ''user_1''
       = None
   \<and> trace (current (run ([] @ [Arrive (StartReq env8 ''user_1'')]) (idle state3)))
       = [Kill (ChildProcess (Some 7)), Sweep ''user_1'']
   \<and> suspended (run (take 3 overlapping_starts) (idle state1)) ! 0 = StartCont env8 user1
   \<and> bridgeProcesses (current (run (take 3 overlapping_starts) (idle state1))) ''user_1''
       = Some (Handle (ChildProcess (Some 7)) (Some 7))
   \<and> {h. bridgeProcesses (current (run (take 3 overlapping_starts @ [Resume 0]) (idle state1)))
            ''user_1'' = Some h}
       = {Handle (ChildProcess (Some 8)) (Some 8)}
   \<and> trace (current (run (take 3 overlapping_starts @ [Resume 0]) (idle state1)))
       = trace (current (run (take 3 overlapping_starts) (idle state1)))
         @ [WriteConfig ''user_1'', Spawn (JStr ''wss://x'') ''user_1'' (JStr []), WriteUsers]
   \<and> fst (startUserBridge env8 user1_running state3) = Returned True
   \<and> card {h. bridgeProcesses (snd (startUserBridge env8 user1_running state3)) ''user_1'' = Some h} = 1
   \<and> trace (snd (startUserBridge env8 user1_running state3))
       = [Kill (ChildProcess (Some 7)), Sweep ''user_1'', WriteConfig ''user_1'',
          Spawn (JStr ''wss://x'') ''user_1'' (JStr []), WriteUsers]"
proof -
  have begun: "fst (start_route_begin ''user_1'' (current (run [] (idle state3)))) = Inr user1_running"
    by code_simp
  have old: "bridgeProcesses (current (run [] (idle state3))) ''user_1''
       = Some (Handle (ChildProcess (Some 7)) (Some 7))"
    by code_simp
  have tr0: "trace (current (run [] (idle state3))) = []"
    by code_simp
  have len: "0 < length (suspended (run (take 3 overlapping_starts) (idle state1)))"
    by code_simp
  have cont: "suspended (run (take 3 overlapping_starts) (idle state1)) ! 0 = StartCont env8 user1"
    by code_simp
  have held: "bridgeProcesses (current (run (take 3 overlapping_starts) (idle state1))) ''user_1''
       = Some (Handle (ChildProcess (Some 7)) (Some 7))"
    by code_simp
  have ok1: "fst (startUserBridge_resume env8 user1
               (current (run (take 3 overlapping_starts) (idle state1)))) = Returned True"
    by code_simp
  have idx1: "find_user_index ''user_1'' (users (current (run (take 3 overlapping_starts) (idle state1))))
       = Some 0"
    by code_simp
  have ok: "fst (startUserBridge env8 user1_running state3) = Returned True"
    by code_simp
  have child: "spawned_child (spawn_result env8) = ChildProcess (Some 8)"
    by (simp add: env8_def)
  have old3: "bridgeProcesses state3 ''user_1'' = Some (Handle (ChildProcess (Some 7)) (Some 7))"
    by (simp add: state3_def)
  have idx: "find_user_index ''user_1'' (users state3) = Some 0"
    by code_simp
  have u: "user_id user1_running = ''user_1''" "mcpEndpoint user1_running = JStr ''wss://x''"
    "js_or (braveApiKey user1_running) (JStr []) = JStr []" "trace state3 = []"
    "user_id user1 = ''user_1''" "mcpEndpoint user1 = JStr ''wss://x''"
    "js_or (braveApiKey user1) (JStr []) = JStr []"
    by (simp_all add: user1_running_def user1_def js_or_def state3_def)
  note arrival = start_registers_one_handle [of "[]" "idle state3" "''user_1''" user1_running
      env8 0 state3]
  note resumed = start_registers_one_handle [of "take 3 overlapping_starts" "idle state1"
      "''user_1''" user1 env8 0 state3]
  note alone = start_registers_one_handle [of "[]" "idle state3" "''user_1''" user1_running
      env8 0 state3]
  have a: "bridgeProcesses (current (run ([] @ [Arrive (StartReq env8 ''user_1'')]) (idle state3))) ''user_1''
       = None
   \<and> trace (current (run ([] @ [Arrive (StartReq env8 ''user_1'')]) (idle state3)))
       = [Kill (ChildProcess (Some 7)), Sweep ''user_1'']"
    using arrival begun by (simp only: old tr0 option.case append_Nil) simp
  have r: "{h. bridgeProcesses (current (run (take 3 overlapping_starts @ [Resume 0]) (idle state1)))
            ''user_1'' = Some h}
       = {Handle (ChildProcess (Some 8)) (Some 8)}
   \<and> trace (current (run (take 3 overlapping_starts @ [Resume 0]) (idle state1)))
       = trace (current (run (take 3 overlapping_starts) (idle state1)))
         @ [WriteConfig ''user_1'', Spawn (JStr ''wss://x'') ''user_1'' (JStr []), WriteUsers]"
    using resumed len cont ok1 by (simp add: idx1 child u)
  have w: "card {h. bridgeProcesses (snd (startUserBridge env8 user1_running state3)) ''user_1'' = Some h} = 1
   \<and> trace (snd (startUserBridge env8 user1_running state3))
       = [Kill (ChildProcess (Some 7)), Sweep ''user_1'', WriteConfig ''user_1'',
          Spawn (JStr ''wss://x'') ''user_1'' (JStr []), WriteUsers]"
    using alone ok by (simp add: old3 idx u)
  from begun old a cont held r ok w show ?thesis
    by blast
qed

section \<open>Exit notifications\<close>

text \<open>
  Claim C2. An exit notification for a child whose handle is still registered
  removes the handle and sets the record to stopped with pid \<^verbatim>\<open>null\<close>; when the
  entry of the user is absent, or is the handle of a newer child, the notification
  is to change neither the registry nor the record. The listener does the first
  (\<open>on_exit_found\<close>), and after a stop it changes nothing (\<open>on_exit_after_stop\<close>),
  but it never looks at which child exited, so the case of a newer child fails.
  The user is started (process 7) and started again (process 7 is killed, process 8
  is spawned, registered and recorded as running). Then the exit notification of
  process 7 arrives: the listener removes the entry of process 8 and sets the record
  to stopped with pid \<^verbatim>\<open>null\<close>, while process 8 runs on, no longer tracked.
\<close>

theorem exit_of_replaced_child_removes_new_handle:
  "bridgeProcesses (current (run start_twice (idle state1))) ''user_1''
     = Some (Handle (ChildProcess (Some 8)) (Some 8))
   \<and> map status (users (current (run start_twice (idle state1)))) = [Running]
   \<and> map pid (users (current (run start_twice (idle state1)))) = [PidNum 8]
   \<and> trace (current (run start_twice (idle state1)))
       = [Sweep ''user_1'', WriteConfig ''user_1'',
          Spawn (JStr ''wss://x'') ''user_1'' (JStr []), WriteUsers,
          Kill (ChildProcess (Some 7)), Sweep ''user_1'', WriteConfig ''user_1'',
          Spawn (JStr ''wss://x'') ''user_1'' (JStr []), WriteUsers]
   \<and> bridgeProcesses (current (run start_twice_then_exit (idle state1))) ''user_1'' = None
   \<and> map status (users (current (run start_twice_then_exit (idle state1)))) = [Stopped]
   \<and> map pid (users (current (run start_twice_then_exit (idle state1)))) = [PidNull]"
  by code_simp

section \<open>Start without an endpoint\<close>

text \<open>
  Claim C3. When the user of a start request has an endpoint that is absent or
  empty (more generally: falsy), the route answers 400 \<^verbatim>\<open>MCP Endpoint required\<close> and
  the state is the one before the request: no call was made to the environment
  (the trace has no new \<^verbatim>\<open>Kill\<close>, \<^verbatim>\<open>Sweep\<close> or \<^verbatim>\<open>Spawn\<close>), and \<open>bridgeProcesses\<close> and
  the persisted records are unchanged.
\<close>

theorem start_without_endpoint:
  "find_user i (users st) = Some user \<Longrightarrow> \<not> truthy (mcpEndpoint user)
   \<Longrightarrow> start_route e i st = (Error 400 ''MCP Endpoint required'', st)"
  by (simp add: start_route_def)

theorem start_without_endpoint_witness:
  "find_user ''user_2'' (users state2) = Some user2 \<and> \<not> truthy (mcpEndpoint user2)
   \<and> start_route \<lparr>config_write_ok = True, spawn_result = Launched 12\<rparr> ''user_2'' state2
       = (Error 400 ''MCP Endpoint required'', state2)"
proof -
  have found: "find_user ''user_2'' (users state2) = Some user2"
    by (simp add: find_user_def state2_def user1_def user2_def)
  have falsy: "\<not> truthy (mcpEndpoint user2)"
    by (simp add: user2_def)
  from start_without_endpoint [OF found falsy] found falsy show ?thesis
    by simp
qed

section \<open>Stop\<close>

text \<open>
  Claim C4, as stated, does not hold: a stop can complete while a handle for the
  user is registered. The stop handler removes the handle at its beginning, before
  its \<^verbatim>\<open>await\<close>, and never looks at \<open>bridgeProcesses\<close> again. The running first user gets
  a start request and then a stop request before the start handler has resumed; the
  start handler resumes (process 8 is spawned and registered), then the stop handler
  resumes and completes with success. The record is stopped with pid \<^verbatim>\<open>null\<close>, and
  the handle of process 8 is still registered.
\<close>

theorem stop_completes_with_handle_registered:
  "find_user ''user_1'' (users state3) = Some user1_running
   \<and> answers (run (start_overlapped_by_stop env8 ''user_1'') (idle state3)) = [Success, Success]
   \<and> suspended (run (start_overlapped_by_stop env8 ''user_1'') (idle state3)) = []
   \<and> bridgeProcesses (current (run (start_overlapped_by_stop env8 ''user_1'') (idle state3))) ''user_1''
       = Some (Handle (ChildProcess (Some 8)) (Some 8))
   \<and> map status (users (current (run (start_overlapped_by_stop env8 ''user_1'') (idle state3))))
       = [Stopped]
   \<and> map pid (users (current (run (start_overlapped_by_stop env8 ''user_1'') (idle state3))))
       = [PidNull]"
  by code_simp

text \<open>
  Claim C4, amended. For a user that exists, a stop request that is taken up
  removes the handle registered at that moment, and the handler, from whatever state
  it resumes, answers success and leaves the record found under the id with
  \<^verbatim>\<open>status = 'stopped'\<close> and \<^verbatim>\<open>pid = null\<close>; this second half leaves \<open>bridgeProcesses\<close> as
  it finds it. So when the handler runs from its beginning to its end with nothing
  in between, afterwards \<open>bridgeProcesses\<close> has no entry for the id and the record is
  stopped with pid \<^verbatim>\<open>null\<close>, whether or not there was an entry before; a second stop
  answers success again and leaves the records, \<open>bridgeProcesses\<close> and the config
  files as the first stop left them; and a stop without an entry kills nothing: it
  only runs the \<^verbatim>\<open>wmic\<close> command and rewrites \<^verbatim>\<open>users.json\<close>. A handle that a start
  registers while the stop handler is suspended stays registered.
\<close>

theorem stop_route_stops:
  "(find_user i (users st) = Some user \<longrightarrow>
      fst (stop_route i st) = Success
      \<and> bridgeProcesses (snd (stop_route i st)) i = None
      \<and> map_option status (find_user i (users (snd (stop_route i st)))) = Some Stopped
      \<and> map_option pid (find_user i (users (snd (stop_route i st)))) = Some PidNull
      \<and> fst (stop_route i (snd (stop_route i st))) = Success
      \<and> users (snd (stop_route i (snd (stop_route i st)))) = users (snd (stop_route i st))
      \<and> bridgeProcesses (snd (stop_route i (snd (stop_route i st))))
          = bridgeProcesses (snd (stop_route i st))
      \<and> configs (snd (stop_route i (snd (stop_route i st)))) = configs (snd (stop_route i st))
      \<and> (bridgeProcesses st i = None \<longrightarrow>
            bridgeProcesses (snd (stop_route i st)) = bridgeProcesses st
            \<and> trace (snd (stop_route i st)) = trace st @ [Sweep i, WriteUsers]))
   \<and> (find_user i (users (current (run evs sv))) = Some user \<longrightarrow>
      bridgeProcesses (current (run (evs @ [Arrive (StopReq i)]) sv)) i = None
      \<and> suspended (run (evs @ [Arrive (StopReq i)]) sv)
          = suspended (run evs sv) @ [StopCont i (users (current (run evs sv)))])
   \<and> (k < length (suspended (run evs sv)) \<and> suspended (run evs sv) ! k = StopCont i data
        \<and> find_user i data = Some user \<longrightarrow>
      answers (run (evs @ [Resume k]) sv) = answers (run evs sv) @ [Success]
      \<and> bridgeProcesses (current (run (evs @ [Resume k]) sv))
          = bridgeProcesses (current (run evs sv))
      \<and> map_option status (find_user i (users (current (run (evs @ [Resume k]) sv))))
          = Some Stopped
      \<and> map_option pid (find_user i (users (current (run (evs @ [Resume k]) sv))))
          = Some PidNull)"
proof -
  have alone: "find_user i (users st) = Some user \<longrightarrow>
      fst (stop_route i st) = Success
      \<and> bridgeProcesses (snd (stop_route i st)) i = None
      \<and> map_option status (find_user i (users (snd (stop_route i st)))) = Some Stopped
      \<and> map_option pid (find_user i (users (snd (stop_route i st)))) = Some PidNull
      \<and> fst (stop_route i (snd (stop_route i st))) = Success
      \<and> users (snd (stop_route i (snd (stop_route i st)))) = users (snd (stop_route i st))
      \<and> bridgeProcesses (snd (stop_route i (snd (stop_route i st))))
          = bridgeProcesses (snd (stop_route i st))
      \<and> configs (snd (stop_route i (snd (stop_route i st)))) = configs (snd (stop_route i st))
      \<and> (bridgeProcesses st i = None \<longrightarrow>
            bridgeProcesses (snd (stop_route i st)) = bridgeProcesses st
            \<and> trace (snd (stop_route i st)) = trace st @ [Sweep i, WriteUsers])"
    using stop_route_alone [of i st user] by blast
  define sv1 where "sv1 = run evs sv"
  have begun: "find_user i (users (current sv1)) = Some user \<longrightarrow>
      bridgeProcesses (current (run (evs @ [Arrive (StopReq i)]) sv)) i = None
      \<and> suspended (run (evs @ [Arrive (StopReq i)]) sv)
          = suspended sv1 @ [StopCont i (users (current sv1))]"
    unfolding run_snoc sv1_def [symmetric]
    by (simp add: stop_route_begin_found)
  have resumed: "k < length (suspended sv1) \<and> suspended sv1 ! k = StopCont i data
        \<and> find_user i data = Some user \<longrightarrow>
      answers (run (evs @ [Resume k]) sv) = answers sv1 @ [Success]
      \<and> bridgeProcesses (current (run (evs @ [Resume k]) sv)) = bridgeProcesses (current sv1)
      \<and> map_option status (find_user i (users (current (run (evs @ [Resume k]) sv))))
          = Some Stopped
      \<and> map_option pid (find_user i (users (current (run (evs @ [Resume k]) sv))))
          = Some PidNull"
  proof
    assume h: "k < length (suspended sv1) \<and> suspended sv1 ! k = StopCont i data
        \<and> find_user i data = Some user"
    then obtain n where n: "find_user_index i data = Some n"
      by (auto simp: find_user_by_index)
    from h n have res: "resume (suspended sv1 ! k) (current sv1)
        = (Success, writeUsers (set_status n Stopped PidNull data) (current sv1))"
      by (simp add: stop_route_resume_found)
    from h have st: "run (evs @ [Resume k]) sv = step (Resume k) sv1"
      by (simp add: run_snoc sv1_def)
    from h res have cur: "current (step (Resume k) sv1)
        = writeUsers (set_status n Stopped PidNull data) (current sv1)"
      and ans: "answers (step (Resume k) sv1) = answers sv1 @ [Success]"
      using step_resume [of k sv1] by simp_all
    show "answers (run (evs @ [Resume k]) sv) = answers sv1 @ [Success]
      \<and> bridgeProcesses (current (run (evs @ [Resume k]) sv)) = bridgeProcesses (current sv1)
      \<and> map_option status (find_user i (users (current (run (evs @ [Resume k]) sv))))
          = Some Stopped
      \<and> map_option pid (find_user i (users (current (run (evs @ [Resume k]) sv))))
          = Some PidNull"
      unfolding st cur ans
      by (simp add: writeUsers_def find_user_set_status [OF n])
  qed
  from alone begun resumed show ?thesis
    unfolding sv1_def by blast
qed

theorem stop_route_stops_witness:
  "find_user ''user_2'' (users state2) = Some user2
   \<and> fst (stop_route ''user_2'' state2) = Success
   \<and> bridgeProcesses (snd (stop_route ''user_2'' state2)) ''user_2'' = None
   \<and> map_option status (find_user ''user_2'' (users (snd (stop_route ''user_2'' state2)))) = Some Stopped
   \<and> map_option pid (find_user ''user_2'' (users (snd (stop_route ''user_2'' state2)))) = Some PidNull
   \<and> find_user ''user_1'' (users state1) = Some user1
   \<and> bridgeProcesses state1 ''user_1'' = None
   \<and> fst (stop_route ''user_1'' state1) = Success
   \<and> bridgeProcesses (snd (stop_route ''user_1'' state1)) = bridgeProcesses state1
   \<and> trace (snd (stop_route ''user_1'' state1)) = [Sweep ''user_1'', WriteUsers]
   \<and> find_user ''user_1'' (users (current (run [] (idle state3)))) = Some user1_running
   \<and> bridgeProcesses (current (run ([] @ [Arrive (StopReq ''user_1'')]) (idle state3))) ''user_1''
       = None
   \<and> suspended (run (take 3 (start_overlapped_by_stop env8 ''user_1'')) (idle state3)) ! 0
       = StopCont ''user_1'' [user1_running]
   \<and> answers (run (take 3 (start_overlapped_by_stop env8 ''user_1'') @ [Resume 0]) (idle state3))
       = [Success, Success]
   \<and> bridgeProcesses
        (current (run (take 3 (start_overlapped_by_stop env8 ''user_1'') @ [Resume 0]) (idle state3)))
        ''user_1''
       = Some (Handle (ChildProcess (Some 8)) (Some 8))
   \<and> map_option status (find_user ''user_1'' (users
        (current (run (take 3 (start_overlapped_by_stop env8 ''user_1'') @ [Resume 0]) (idle state3)))))
       = Some Stopped"
proof -
  have found2: "find_user ''user_2'' (users state2) = Some user2"
    by (simp add: find_user_def state2_def user1_def user2_def)
  have found1: "find_user ''user_1'' (users state1) = Some user1"
    by (simp add: find_user_def state1_def user1_def)
  have none1: "bridgeProcesses state1 ''user_1'' = None" and tr1: "trace state1 = []"
    by (simp_all add: state1_def)
  have found3: "find_user ''user_1'' (users (current (run [] (idle state3)))) = Some user1_running"
    by code_simp
  have len: "0 < length (suspended (run (take 3 (start_overlapped_by_stop env8 ''user_1'')) (idle state3)))"
    by code_simp
  have cont: "suspended (run (take 3 (start_overlapped_by_stop env8 ''user_1'')) (idle state3)) ! 0
       = StopCont ''user_1'' [user1_running]"
    by code_simp
  have data: "find_user ''user_1'' [user1_running] = Some user1_running"
    by code_simp
  have before: "answers (run (take 3 (start_overlapped_by_stop env8 ''user_1'')) (idle state3))
       = [Success]"
    "bridgeProcesses (current (run (take 3 (start_overlapped_by_stop env8 ''user_1'')) (idle state3)))
       ''user_1'' = Some (Handle (ChildProcess (Some 8)) (Some 8))"
    by code_simp+
  note alone2 = stop_route_stops [of "''user_2''" state2 user2 "[]" "idle state3" 0 "[]"]
  note alone1 = stop_route_stops [of "''user_1''" state1 user1 "[]" "idle state3" 0 "[]"]
  note begun = stop_route_stops [of "''user_1''" state1 user1_running "[]" "idle state3" 0 "[]"]
  note resumed = stop_route_stops [of "''user_1''" state1 user1_running
      "take 3 (start_overlapped_by_stop env8 ''user_1'')" "idle state3" 0 "[user1_running]"]
  have a2: "fst (stop_route ''user_2'' state2) = Success
   \<and> bridgeProcesses (snd (stop_route ''user_2'' state2)) ''user_2'' = None
   \<and> map_option status (find_user ''user_2'' (users (snd (stop_route ''user_2'' state2)))) = Some Stopped
   \<and> map_option pid (find_user ''user_2'' (users (snd (stop_route ''user_2'' state2)))) = Some PidNull"
    using alone2 found2 by blast
  have a1: "fst (stop_route ''user_1'' state1) = Success
   \<and> bridgeProcesses (snd (stop_route ''user_1'' state1)) = bridgeProcesses state1
   \<and> trace (snd (stop_route ''user_1'' state1)) = [Sweep ''user_1'', WriteUsers]"
    using alone1 found1 none1 by (simp add: tr1)
  have b: "bridgeProcesses (current (run ([] @ [Arrive (StopReq ''user_1'')]) (idle state3))) ''user_1''
       = None"
    using begun found3 by blast
  have r: "answers (run (take 3 (start_overlapped_by_stop env8 ''user_1'') @ [Resume 0]) (idle state3))
       = [Success, Success]
   \<and> bridgeProcesses
        (current (run (take 3 (start_overlapped_by_stop env8 ''user_1'') @ [Resume 0]) (idle state3)))
        ''user_1''
       = Some (Handle (ChildProcess (Some 8)) (Some 8))
   \<and> map_option status (find_user ''user_1'' (users
        (current (run (take 3 (start_overlapped_by_stop env8 ''user_1'') @ [Resume 0]) (idle state3)))))
       = Some Stopped"
    using resumed len cont data by (simp add: before)
  from found2 a2 found1 none1 a1 found3 b cont r show ?thesis
    by blast
qed

section \<open>Start attempts that fail\<close>

text \<open>
  Claim C5, as stated, does not hold. When \<^verbatim>\<open>spawn\<close> returns a child that could not
  be launched, the code has no way to notice: it registers the child and writes
  \<^verbatim>\<open>status = 'running'\<close> with the undefined pid to the record, and the route answers
  success. For the user of the scenario, stopped before the attempt:
\<close>

theorem launch_failure_marks_running:
  "map status (users state1) = [Stopped]
   \<and> fst (start_route env_failed ''user_1'' state1) = Success
   \<and> map status (users (snd (start_route env_failed ''user_1'' state1))) = [Running]
   \<and> map pid (users (snd (start_route env_failed ''user_1'' state1))) = [PidUndefined]
   \<and> bridgeProcesses (snd (start_route env_failed ''user_1'' state1)) ''user_1''
       = Some (Handle (ChildProcess None) None)"
  by code_simp

text \<open>
  Claim C5, amended. A start attempt that the code itself sees fail (the route
  answering 404 or 400, \<^verbatim>\<open>startUserBridge\<close> returning \<^verbatim>\<open>false\<close> for a missing endpoint,
  the config write or \<^verbatim>\<open>spawn\<close> throwing) writes nothing to the persisted records:
  neither the half of the handler before its \<^verbatim>\<open>await\<close> changes them, nor the half after
  it, from whatever state it resumes. So when nothing else runs during the \<^verbatim>\<open>await\<close>
  the records are as they were before the attempt. If the user had a running child,
  the attempt has killed it before it failed, and the exit notification of that
  child, when it is delivered (also during the \<^verbatim>\<open>await\<close>), sets the record to stopped
  with pid \<^verbatim>\<open>null\<close>. A child that \<^verbatim>\<open>spawn\<close> returns but that could not be launched is
  not seen as a failure: the handler answers success and the record is set to
  running with an undefined pid.
\<close>

theorem failed_start_keeps_records:
  "(fst (start_route e i st) \<noteq> Success \<longrightarrow> users (snd (start_route e i st)) = users st)
   \<and> (fst (startUserBridge e user st) \<noteq> Returned True \<longrightarrow>
        users (snd (startUserBridge e user st)) = users st)
   \<and> users (current (run (evs @ [Arrive (StartReq e i)]) sv)) = users (current (run evs sv))
   \<and> (k < length (suspended (run evs sv)) \<and> suspended (run evs sv) ! k = StartCont e user
        \<and> fst (startUserBridge_resume e user (current (run evs sv))) \<noteq> Returned True \<longrightarrow>
        users (current (run (evs @ [Resume k]) sv)) = users (current (run evs sv)))
   \<and> (find_user_index (user_id user) (users (current (run evs sv))) = Some n \<longrightarrow>
        users (current (run (evs @ [ChildExit user proc]) sv))
          = set_status n Stopped PidNull (users (current (run evs sv))))
   \<and> (k < length (suspended (run evs sv)) \<and> suspended (run evs sv) ! k = StartCont e user
        \<and> truthy (mcpEndpoint user) \<and> config_write_ok e \<and> spawn_result e = LaunchFailed
        \<and> find_user_index (user_id user) (users (current (run evs sv))) = Some n \<longrightarrow>
        answers (run (evs @ [Resume k]) sv) = answers (run evs sv) @ [Success]
        \<and> users (current (run (evs @ [Resume k]) sv))
            = set_status n Running PidUndefined (users (current (run evs sv))))
   \<and> (truthy (mcpEndpoint user) \<and> config_write_ok e \<and> spawn_result e = LaunchFailed
        \<and> find_user_index (user_id user) (users st) = Some n \<longrightarrow>
        fst (startUserBridge e user st) = Returned True
        \<and> users (snd (startUserBridge e user st)) = set_status n Running PidUndefined (users st))"
proof -
  define sv1 where "sv1 = run evs sv"
  have a: "fst (start_route e i st) \<noteq> Success \<longrightarrow> users (snd (start_route e i st)) = users st"
    by (simp add: start_route_not_started)
  have b: "fst (startUserBridge e user st) \<noteq> Returned True \<longrightarrow>
        users (snd (startUserBridge e user st)) = users st"
    using resume_not_started [of e user "killUserBridge (user_id user) st"]
    by (simp add: startUserBridge_def)
  have c: "users (current (run (evs @ [Arrive (StartReq e i)]) sv)) = users (current sv1)"
    unfolding run_snoc step_arrive_start sv1_def [symmetric]
    by (rule start_route_begin_users)
  have d: "k < length (suspended sv1) \<and> suspended sv1 ! k = StartCont e user
        \<and> fst (startUserBridge_resume e user (current sv1)) \<noteq> Returned True \<longrightarrow>
        users (current (run (evs @ [Resume k]) sv)) = users (current sv1)"
  proof
    assume h: "k < length (suspended sv1) \<and> suspended sv1 ! k = StartCont e user
        \<and> fst (startUserBridge_resume e user (current sv1)) \<noteq> Returned True"
    then have "current (run (evs @ [Resume k]) sv) = snd (startUserBridge_resume e user (current sv1))"
      using step_resume [of k sv1] by (simp add: run_snoc sv1_def start_route_resume_state del: step.simps)
    with h show "users (current (run (evs @ [Resume k]) sv)) = users (current sv1)"
      by (simp add: resume_not_started)
  qed
  have x: "find_user_index (user_id user) (users (current sv1)) = Some n \<longrightarrow>
        users (current (run (evs @ [ChildExit user proc]) sv))
          = set_status n Stopped PidNull (users (current sv1))"
    unfolding run_snoc step_exit sv1_def [symmetric]
    by (simp add: on_exit_found writeUsers_def)
  have f: "k < length (suspended sv1) \<and> suspended sv1 ! k = StartCont e user
        \<and> truthy (mcpEndpoint user) \<and> config_write_ok e \<and> spawn_result e = LaunchFailed
        \<and> find_user_index (user_id user) (users (current sv1)) = Some n \<longrightarrow>
        answers (run (evs @ [Resume k]) sv) = answers sv1 @ [Success]
        \<and> users (current (run (evs @ [Resume k]) sv))
            = set_status n Running PidUndefined (users (current sv1))"
  proof
    assume h: "k < length (suspended sv1) \<and> suspended sv1 ! k = StartCont e user
        \<and> truthy (mcpEndpoint user) \<and> config_write_ok e \<and> spawn_result e = LaunchFailed
        \<and> find_user_index (user_id user) (users (current sv1)) = Some n"
    then have ok: "fst (startUserBridge_resume e user (current sv1)) = Returned True"
      by (simp add: resume_outcome)
    from h have cur: "current (run (evs @ [Resume k]) sv)
          = snd (startUserBridge_resume e user (current sv1))"
      and ans: "answers (run (evs @ [Resume k]) sv)
          = answers sv1 @ [fst (start_route_resume e user (current sv1))]"
      using step_resume [of k sv1]
      by (simp_all add: run_snoc sv1_def start_route_resume_state del: step.simps)
    from h show "answers (run (evs @ [Resume k]) sv) = answers sv1 @ [Success]
        \<and> users (current (run (evs @ [Resume k]) sv))
            = set_status n Running PidUndefined (users (current sv1))"
      unfolding cur ans by (simp add: start_route_resume_outcome ok resume_started(3) [OF ok])
  qed
  have g: "truthy (mcpEndpoint user) \<and> config_write_ok e \<and> spawn_result e = LaunchFailed
        \<and> find_user_index (user_id user) (users st) = Some n \<longrightarrow>
        fst (startUserBridge e user st) = Returned True
        \<and> users (snd (startUserBridge e user st)) = set_status n Running PidUndefined (users st)"
    by (simp add: startUserBridge_def resume_unfold)
  from a b c d x f g show ?thesis
    unfolding sv1_def by blast
qed

theorem failed_start_keeps_records_witness:
  "fst (start_route env_threw ''user_1'' state3) \<noteq> Success
   \<and> users (snd (start_route env_threw ''user_1'' state3)) = users state3
   \<and> fst (startUserBridge env_threw user1_running state3) \<noteq> Returned True
   \<and> users (snd (startUserBridge env_threw user1_running state3)) = users state3
   \<and> users (current (run ([] @ [Arrive (StartReq env_threw ''user_1'')]) (idle state3)))
       = users (current (run [] (idle state3)))
   \<and> users (current (run (take 1 failed_start_with_exit
                             @ [ChildExit user1_running (ChildProcess (Some 7))]) (idle state3)))
       = set_status 0 Stopped PidNull (users (current (run (take 1 failed_start_with_exit) (idle state3))))
   \<and> suspended (run (take 2 failed_start_with_exit) (idle state3)) ! 0
       = StartCont env_threw user1_running
   \<and> users (current (run (take 2 failed_start_with_exit @ [Resume 0]) (idle state3)))
       = users (current (run (take 2 failed_start_with_exit) (idle state3)))
   \<and> map status (users (current (run (take 2 failed_start_with_exit @ [Resume 0]) (idle state3))))
       = [Stopped]
   \<and> map status (users state3) = [Running]
   \<and> fst (startUserBridge env_failed user1 state1) = Returned True
   \<and> users (snd (startUserBridge env_failed user1 state1))
        = set_status 0 Running PidUndefined (users state1)"
proof -
  have r: "fst (start_route env_threw ''user_1'' state3) \<noteq> Success"
    by code_simp
  have b: "fst (startUserBridge env_threw user1_running state3) \<noteq> Returned True"
    by code_simp
  have idx1: "find_user_index (user_id user1_running)
       (users (current (run (take 1 failed_start_with_exit) (idle state3)))) = Some 0"
    by code_simp
  have len: "0 < length (suspended (run (take 2 failed_start_with_exit) (idle state3)))"
    by code_simp
  have cont: "suspended (run (take 2 failed_start_with_exit) (idle state3)) ! 0
       = StartCont env_threw user1_running"
    by code_simp
  have fails: "fst (startUserBridge_resume env_threw user1_running
       (current (run (take 2 failed_start_with_exit) (idle state3)))) \<noteq> Returned True"
    by code_simp
  have now_stopped: "map status (users (current (run (take 2 failed_start_with_exit) (idle state3))))
       = [Stopped]"
    by code_simp
  have was_running: "map status (users state3) = [Running]"
    by code_simp
  have h: "truthy (mcpEndpoint user1)" "config_write_ok env_failed"
    "spawn_result env_failed = LaunchFailed"
    by (simp_all add: user1_def env_failed_def)
  have k: "find_user_index (user_id user1) (users state1) = Some 0"
    by code_simp
  note alone = failed_start_keeps_records [of env_threw "''user_1''" state3 user1_running
      "[]" "idle state3" 0 0 "ChildProcess (Some 7)"]
  note exited = failed_start_keeps_records [of env_threw "''user_1''" state3 user1_running
      "take 1 failed_start_with_exit" "idle state3" 0 0 "ChildProcess (Some 7)"]
  note resumed = failed_start_keeps_records [of env_threw "''user_1''" state3 user1_running
      "take 2 failed_start_with_exit" "idle state3" 0 0 "ChildProcess (Some 7)"]
  note failed = failed_start_keeps_records [of env_failed "''user_1''" state1 user1
      "[]" "idle state1" 0 0 "ChildProcess None"]
  have p1: "users (snd (start_route env_threw ''user_1'' state3)) = users state3
   \<and> users (snd (startUserBridge env_threw user1_running state3)) = users state3
   \<and> users (current (run ([] @ [Arrive (StartReq env_threw ''user_1'')]) (idle state3)))
       = users (current (run [] (idle state3)))"
    using alone r b by blast
  have p2: "users (current (run (take 1 failed_start_with_exit
                             @ [ChildExit user1_running (ChildProcess (Some 7))]) (idle state3)))
       = set_status 0 Stopped PidNull (users (current (run (take 1 failed_start_with_exit) (idle state3))))"
    using exited idx1 by blast
  have p3: "users (current (run (take 2 failed_start_with_exit @ [Resume 0]) (idle state3)))
       = users (current (run (take 2 failed_start_with_exit) (idle state3)))"
    using resumed len cont fails by blast
  have p4: "fst (startUserBridge env_failed user1 state1) = Returned True
   \<and> users (snd (startUserBridge env_failed user1 state1))
        = set_status 0 Running PidUndefined (users state1)"
    using failed h k by blast
  from p3 now_stopped
  have p5: "map status (users (current (run (take 2 failed_start_with_exit @ [Resume 0]) (idle state3))))
       = [Stopped]"
    by simp
  from r b p1 p2 cont p3 p5 was_running p4 show ?thesis
    by blast
qed

section \<open>Generated configuration\<close>

text \<open>
  Claim C6. \<^verbatim>\<open>generateUserConfig\<close> returns the path of the config file of the user and
  writes into that file the object \<open>mcpServers\<close>. That object has the key
  \<^verbatim>\<open>brave-search\<close> exactly when both \<^verbatim>\<open>braveEnabled\<close> and \<^verbatim>\<open>braveApiKey\<close> of the user are
  truthy (for a flag: \<^verbatim>\<open>true\<close>; for a key: a string that is not empty; an absent
  field is falsy), the key \<^verbatim>\<open>weather\<close> exactly when \<^verbatim>\<open>weatherEnabled\<close> is truthy, and
  always the key \<^verbatim>\<open>rss-news\<close>, whose entry mentions nothing of the user but the id.
  The keys are distinct. With search disabled and weather enabled the keys of the
  written config are exactly \<^verbatim>\<open>weather\<close> and \<^verbatim>\<open>rss-news\<close>.
\<close>

theorem mcpServers_capabilities:
  "fst (generateUserConfig True u st) = Returned (user_id u)
   \<and> configs (snd (generateUserConfig True u st)) (user_id u) = Some (mcpServers u)
   \<and> (''brave-search'' \<in> set (map fst (mcpServers u)))
      = (truthy (braveEnabled u) \<and> truthy (braveApiKey u))
   \<and> (''weather'' \<in> set (map fst (mcpServers u))) = truthy (weatherEnabled u)
   \<and> map_of (mcpServers u) ''rss-news''
        = Some (Local PYTHON_PATH [''rss-server.py'', ''--user'', user_id u] ''stdio'')
   \<and> distinct (map fst (mcpServers u))
   \<and> (braveEnabled u = JBool flag \<and> braveApiKey u = JStr key
        \<longrightarrow> (''brave-search'' \<in> set (map fst (mcpServers u))) = (flag \<and> key \<noteq> []))
   \<and> (braveEnabled u = JUndefined \<or> braveApiKey u = JUndefined
        \<longrightarrow> ''brave-search'' \<notin> set (map fst (mcpServers u)))
   \<and> (\<not> truthy (braveEnabled u) \<and> truthy (weatherEnabled u)
        \<longrightarrow> map_option (map fst) (configs (snd (generateUserConfig True u st)) (user_id u))
              = Some [''weather'', ''rss-news''])"
proof -
  have written: "fst (generateUserConfig True u st) = Returned (user_id u)
      \<and> configs (snd (generateUserConfig True u st)) (user_id u) = Some (mcpServers u)"
    by (simp add: generateUserConfig_def Let_def)
  have keys: "(''brave-search'' \<in> set (map fst (mcpServers u)))
      = (truthy (braveEnabled u) \<and> truthy (braveApiKey u))
   \<and> (''weather'' \<in> set (map fst (mcpServers u))) = truthy (weatherEnabled u)
   \<and> map_of (mcpServers u) ''rss-news''
        = Some (Local PYTHON_PATH [''rss-server.py'', ''--user'', user_id u] ''stdio'')
   \<and> distinct (map fst (mcpServers u))
   \<and> (braveEnabled u = JBool flag \<and> braveApiKey u = JStr key
        \<longrightarrow> (''brave-search'' \<in> set (map fst (mcpServers u))) = (flag \<and> key \<noteq> []))
   \<and> (braveEnabled u = JUndefined \<or> braveApiKey u = JUndefined
        \<longrightarrow> ''brave-search'' \<notin> set (map fst (mcpServers u)))
   \<and> (\<not> truthy (braveEnabled u) \<and> truthy (weatherEnabled u)
        \<longrightarrow> map fst (mcpServers u) = [''weather'', ''rss-news''])"
    by (auto simp: mcpServers_def)
  from written keys show ?thesis
    by simp
qed

theorem mcpServers_capabilities_witness:
  "\<not> truthy (braveEnabled user1) \<and> truthy (weatherEnabled user1)
   \<and> fst (generateUserConfig True user1 state1) = Returned ''user_1''
   \<and> map_option (map fst) (configs (snd (generateUserConfig True user1 state1)) ''user_1'')
       = Some [''weather'', ''rss-news'']
   \<and> ''brave-search'' \<notin> set (map fst (mcpServers user1))
   \<and> braveEnabled user2 = JBool True \<and> braveApiKey user2 = JStr ''key''
   \<and> configs (snd (generateUserConfig True user2 state1)) ''user_2'' = Some (mcpServers user2)
   \<and> ''brave-search'' \<in> set (map fst (mcpServers user2))
   \<and> ''weather'' \<notin> set (map fst (mcpServers user2))"
proof -
  have f1: "\<not> truthy (braveEnabled user1)" "truthy (weatherEnabled user1)" "user_id user1 = ''user_1''"
    by (simp_all add: user1_def)
  have f2: "braveEnabled user2 = JBool True" "braveApiKey user2 = JStr ''key''"
    "\<not> truthy (weatherEnabled user2)" "user_id user2 = ''user_2''"
    by (simp_all add: user2_def)
  note first = mcpServers_capabilities [of user1 state1 False "[]"]
  note second = mcpServers_capabilities [of user2 state1 True "''key''"]
  have a1: "fst (generateUserConfig True user1 state1) = Returned (user_id user1)"
    using first by blast
  have a2: "map_option (map fst) (configs (snd (generateUserConfig True user1 state1)) (user_id user1))
       = Some [''weather'', ''rss-news'']"
    using first f1 by blast
  have a3: "''brave-search'' \<notin> set (map fst (mcpServers user1))"
    using first f1 by blast
  have b1: "configs (snd (generateUserConfig True user2 state1)) (user_id user2) = Some (mcpServers user2)"
    using second by blast
  have b2: "''brave-search'' \<in> set (map fst (mcpServers user2))"
    using second f2 by simp
  have b3: "''weather'' \<notin> set (map fst (mcpServers user2))"
    using second f2 by blast
  from f1(1,2) a1 [unfolded f1(3)] a2 [unfolded f1(3)] a3 f2(1,2) b1 [unfolded f2(4)] b2 b3
  show ?thesis
    by blast
qed

section \<open>Deletion of a user\<close>

text \<open>
  Claim C7. For a user that exists, the delete route calls the environment in
  this order and no other: the kill of the tracked child (when there is one) and
  the \<^verbatim>\<open>wmic\<close> command, that is \<^verbatim>\<open>killUserBridge\<close>; then the removal of the config file;
  then the write of \<^verbatim>\<open>users.json\<close> without the record. Whether the removal of the
  config file succeeds or throws, the record is erased and the answer is success.
\<close>

theorem delete_route_order:
  assumes "find_user_index i (users st) = Some idx"
  shows "fst (delete_route unlink_ok i st) = Success
    \<and> trace (snd (delete_route unlink_ok i st))
        = trace st @ (case bridgeProcesses st i of None \<Rightarrow> [] | Some h \<Rightarrow> [Kill (process h)])
            @ [Sweep i, Unlink i, WriteUsers]
    \<and> users (snd (delete_route unlink_ok i st)) = splice1 idx (users st)
    \<and> bridgeProcesses (snd (delete_route unlink_ok i st)) = (bridgeProcesses st)(i := None)
    \<and> configs (snd (delete_route unlink_ok i st))
        = (if unlink_ok then (configs st)(i := None) else configs st)"
  using assms by (simp add: delete_route_def Let_def writeUsers_def killUserBridge_trace)


theorem delete_route_order_witness:
  "find_user_index ''user_2'' (users state2) = Some 1
   \<and> fst (delete_route False ''user_2'' state2) = Success
   \<and> trace (snd (delete_route False ''user_2'' state2))
        = [Kill (ChildProcess (Some 11)), Sweep ''user_2'', Unlink ''user_2'', WriteUsers]
   \<and> users (snd (delete_route False ''user_2'' state2)) = [user1]
   \<and> bridgeProcesses (snd (delete_route False ''user_2'' state2)) ''user_2'' = None"
proof -
  have idx: "find_user_index ''user_2'' (users state2) = Some 1"
    by code_simp
  have reg: "bridgeProcesses state2 ''user_2'' = Some (Handle (ChildProcess (Some 11)) (Some 11))"
    by (simp add: state2_def)
  have tr: "trace state2 = []"
    by (simp add: state2_def)
  have us: "splice1 (Suc 0) (users state2) = [user1]"
    by code_simp
  note inst = delete_route_order [OF idx, of False]
  show ?thesis
    using inst by (simp add: idx reg tr us)
qed

section \<open>Start and stop of the same user\<close>

text \<open>
  Claim C8, as stated, does not hold: nothing serializes the handlers of one user.
  A stop request arrives, then a start request for the same user; the start handler
  resumes first and the stop handler last. Both answer success, and in the end the
  registry holds the handle of process 7 while the record is stopped with pid
  \<^verbatim>\<open>null\<close>. Neither order of the two requests run one after the other ends so:
  start then stop ends without a handle, stop then start ends with the record running.
\<close>

theorem overlapping_stop_and_start:
  "answers (run (stop_overtaken_by_start env7 ''user_1'') (idle state1)) = [Success, Success]
   \<and> bridgeProcesses (current (run (stop_overtaken_by_start env7 ''user_1'') (idle state1))) ''user_1''
       = Some (Handle (ChildProcess (Some 7)) (Some 7))
   \<and> map status (users (current (run (stop_overtaken_by_start env7 ''user_1'') (idle state1))))
       = [Stopped]
   \<and> map pid (users (current (run (stop_overtaken_by_start env7 ''user_1'') (idle state1))))
       = [PidNull]
   \<and> bridgeProcesses (current (run (start_then_stop env7 ''user_1'') (idle state1))) ''user_1''
       = None
   \<and> map status (users (current (run (stop_then_start env7 ''user_1'') (idle state1))))
       = [Running]"
  by code_simp

text \<open>
  Claim C8, amended. When a start and a stop of the same user (who exists and has
  an endpoint, the child being launched as process \<open>p\<close>) run one after the other, each
  handler to its end before the next begins, the state in the end is consistent:
  after start then stop the registry has no handle for the user and the record is
  stopped with pid \<^verbatim>\<open>null\<close>; after stop then start the registry holds the handle of
  process \<open>p\<close> and the record is running with pid \<open>p\<close>.
\<close>

theorem serial_start_and_stop:
  assumes found: "find_user i (users st) = Some user"
    and endpoint: "truthy (mcpEndpoint user)"
    and cfg: "config_write_ok e"
    and launched: "spawn_result e = Launched p"
  shows "bridgeProcesses (current (run (start_then_stop e i) (idle st))) i = None
    \<and> map_option status (find_user i (users (current (run (start_then_stop e i) (idle st)))))
        = Some Stopped
    \<and> map_option pid (find_user i (users (current (run (start_then_stop e i) (idle st)))))
        = Some PidNull
    \<and> bridgeProcesses (current (run (stop_then_start e i) (idle st))) i
        = Some (Handle (ChildProcess (Some p)) (Some p))
    \<and> map_option status (find_user i (users (current (run (stop_then_start e i) (idle st)))))
        = Some Running
    \<and> map_option pid (find_user i (users (current (run (stop_then_start e i) (idle st)))))
        = Some (PidNum p)"
proof -
  from found obtain k where k: "find_user_index i (users st) = Some k" and uk: "users st ! k = user"
    by (auto simp: find_user_by_index)
  from k have klen: "k < length (users st)"
    by (simp add: find_user_index_bound)
  define s1 where "s1 = snd (start_route e i st)"
  have users1: "users s1 = set_status k Running (PidNum p) (users st)"
    unfolding s1_def by (rule start_route_found(3) [OF found endpoint cfg launched k])
  have k1: "find_user_index i (users s1) = Some k"
    by (simp add: users1 find_user_index_set_status k)
  define s2 where "s2 = snd (stop_route i s1)"
  have s2: "s2 = writeUsers (set_status k Stopped PidNull (users s1)) (killUserBridge i s1)"
    unfolding s2_def by (simp add: stop_route_found [OF k1])
  have reg2: "bridgeProcesses s2 i = None"
    by (simp add: s2 writeUsers_def)
  have found2: "find_user i (users s2) = Some ((users s1 ! k)\<lparr>status := Stopped, pid := PidNull\<rparr>)"
    by (simp add: s2 writeUsers_def find_user_set_status [OF k1])
  define t1 where "t1 = snd (stop_route i st)"
  have t1: "t1 = writeUsers (set_status k Stopped PidNull (users st)) (killUserBridge i st)"
    unfolding t1_def by (simp add: stop_route_found [OF k])
  have userst1: "users t1 = set_status k Stopped PidNull (users st)"
    by (simp add: t1 writeUsers_def)
  have kt1: "find_user_index i (users t1) = Some k"
    by (simp add: userst1 find_user_index_set_status k)
  have foundt1: "find_user i (users t1) = Some (user\<lparr>status := Stopped, pid := PidNull\<rparr>)"
    by (simp add: userst1 find_user_set_status [OF k] uk)
  have endpoint1: "truthy (mcpEndpoint (user\<lparr>status := Stopped, pid := PidNull\<rparr>))"
    using endpoint by simp
  define t2 where "t2 = snd (start_route e i t1)"
  have regt2: "bridgeProcesses t2 i = Some (Handle (ChildProcess (Some p)) (Some p))"
    unfolding t2_def by (simp add: start_route_found(2) [OF foundt1 endpoint1 cfg launched kt1])
  have userst2: "users t2 = set_status k Running (PidNum p) (users t1)"
    unfolding t2_def by (rule start_route_found(3) [OF foundt1 endpoint1 cfg launched kt1])
  have foundt2: "find_user i (users t2) = Some ((users t1 ! k)\<lparr>status := Running, pid := PidNum p\<rparr>)"
    by (simp add: userst2 find_user_set_status [OF kt1])
  have r12: "current (run (start_then_stop e i) (idle st)) = s2"
    by (simp add: run_start_then_stop s2_def s1_def)
  have r21: "current (run (stop_then_start e i) (idle st)) = t2"
    by (simp add: run_stop_then_start t2_def t1_def)
  show ?thesis
    by (simp add: r12 r21 reg2 found2 regt2 foundt2)
qed

theorem serial_start_and_stop_witness:
  "find_user ''user_1'' (users state3) = Some user1_running
   \<and> truthy (mcpEndpoint user1_running)
   \<and> bridgeProcesses (current (run (start_then_stop env8 ''user_1'') (idle state3))) ''user_1'' = None
   \<and> map_option status (find_user ''user_1''
        (users (current (run (start_then_stop env8 ''user_1'') (idle state3))))) = Some Stopped
   \<and> bridgeProcesses (current (run (stop_then_start env8 ''user_1'') (idle state3))) ''user_1''
        = Some (Handle (ChildProcess (Some 8)) (Some 8))
   \<and> map_option pid (find_user ''user_1''
        (users (current (run (stop_then_start env8 ''user_1'') (idle state3))))) = Some (PidNum 8)"
proof -
  have found: "find_user ''user_1'' (users state3) = Some user1_running"
    by (simp add: find_user_def state3_def user1_running_def user1_def)
  have endpoint: "truthy (mcpEndpoint user1_running)"
    by (simp add: user1_running_def user1_def)
  have cfg: "config_write_ok env8" and launched: "spawn_result env8 = Launched 8"
    by (simp_all add: env8_def)
  from serial_start_and_stop [OF found endpoint cfg launched] found endpoint show ?thesis
    by simp
qed

section \<open>Creation of a user\<close>

text \<open>
  Claim C9. User creation answers 400 and changes nothing when the name is falsy.
  Otherwise it appends exactly one record, \<open>newUser\<close>, whose \<^verbatim>\<open>status\<close> is
  \<^verbatim>\<open>'stopped'\<close> and whose \<^verbatim>\<open>pid\<close> is \<^verbatim>\<open>null\<close> whatever the body contains (also when the
  body has properties \<^verbatim>\<open>status\<close> and \<^verbatim>\<open>pid\<close>), and in which every omitted field has
  its default: empty endpoint, search and weather disabled, empty key, no feeds.
\<close>

theorem created_user_is_stopped:
  "(\<not> truthy (body_field b ''name'') \<longrightarrow>
      create_route now created b st = (Error 400 ''Name is required'', st))
   \<and> (truthy (body_field b ''name'') \<longrightarrow>
      create_route now created b st
        = (SuccessUser (newUser now created b), writeUsers (users st @ [newUser now created b]) st))
   \<and> status (newUser now created b) = Stopped
   \<and> pid (newUser now created b) = PidNull
   \<and> (b ''mcpEndpoint'' = None \<longrightarrow> mcpEndpoint (newUser now created b) = JStr [])
   \<and> (b ''braveEnabled'' = None \<longrightarrow> braveEnabled (newUser now created b) = JBool False)
   \<and> (b ''braveApiKey'' = None \<longrightarrow> braveApiKey (newUser now created b) = JStr [])
   \<and> (b ''weatherEnabled'' = None \<longrightarrow> weatherEnabled (newUser now created b) = JBool False)
   \<and> (b ''feeds'' = None \<longrightarrow> feeds (newUser now created b) = JArr [])"
  by (simp add: create_route_def newUser_def body_field_def js_or_def)

theorem created_user_is_stopped_witness:
  "truthy (body_field body1 ''name'')
   \<and> body1 ''status'' = Some (JStr ''running'') \<and> body1 ''pid'' = Some (JNum 4242)
   \<and> fst (create_route 1700000000123 ''2023-11-14T22:13:20.123Z'' body1 state1)
        = SuccessUser (newUser 1700000000123 ''2023-11-14T22:13:20.123Z'' body1)
   \<and> status (newUser 1700000000123 ''2023-11-14T22:13:20.123Z'' body1) = Stopped
   \<and> pid (newUser 1700000000123 ''2023-11-14T22:13:20.123Z'' body1) = PidNull
   \<and> mcpEndpoint (newUser 1700000000123 ''2023-11-14T22:13:20.123Z'' body1) = JStr []
   \<and> braveEnabled (newUser 1700000000123 ''2023-11-14T22:13:20.123Z'' body1) = JBool False
   \<and> braveApiKey (newUser 1700000000123 ''2023-11-14T22:13:20.123Z'' body1) = JStr []
   \<and> weatherEnabled (newUser 1700000000123 ''2023-11-14T22:13:20.123Z'' body1) = JBool False
   \<and> feeds (newUser 1700000000123 ''2023-11-14T22:13:20.123Z'' body1) = JArr []
   \<and> \<not> truthy (body_field Map.empty ''name'')
   \<and> create_route 1700000000123 ''2023-11-14T22:13:20.123Z'' Map.empty state1
        = (Error 400 ''Name is required'', state1)"
proof -
  have nm: "truthy (body_field body1 ''name'')"
    by (simp add: body1_def body_field_def)
  have no_nm: "\<not> truthy (body_field Map.empty ''name'')"
    by (simp add: body_field_def)
  note rejected = created_user_is_stopped
    [of Map.empty 1700000000123 "''2023-11-14T22:13:20.123Z''" state1]
  have given: "body1 ''status'' = Some (JStr ''running'')" "body1 ''pid'' = Some (JNum 4242)"
    by (simp_all add: body1_def)
  have omitted: "body1 ''mcpEndpoint'' = None" "body1 ''braveEnabled'' = None"
    "body1 ''braveApiKey'' = None" "body1 ''weatherEnabled'' = None" "body1 ''feeds'' = None"
    by (simp_all add: body1_def)
  note inst = created_user_is_stopped
    [of body1 1700000000123 "''2023-11-14T22:13:20.123Z''" state1]
  show ?thesis
    using inst rejected by (simp add: nm no_nm given omitted)
qed

section \<open>The user list\<close>

text \<open>
  Claim C10. In the answer of the user list, the \<^verbatim>\<open>braveApiKey\<close> of every user is
  \<^verbatim>\<open>'***'\<close> when the stored key is truthy (a string that is not empty) and \<^verbatim>\<open>''\<close>
  otherwise, and every other field is the stored one. So two stored lists that
  differ only in the value of one user's key, truthy in both, give the same answer.
\<close>

theorem list_users_hides_key:
  "map braveApiKey (list_users us)
     = map (\<lambda>u. if truthy (braveApiKey u) then JStr ''***'' else JStr []) us
   \<and> map (\<lambda>u. u\<lparr>braveApiKey := JNull\<rparr>) (list_users us)
       = map (\<lambda>u. u\<lparr>braveApiKey := JNull\<rparr>) us
   \<and> (truthy k1 \<and> truthy k2 \<longrightarrow>
        list_users (us[i := (us ! i)\<lparr>braveApiKey := k1\<rparr>])
          = list_users (us[i := (us ! i)\<lparr>braveApiKey := k2\<rparr>]))"
  by (simp add: list_users_def mask_user_def map_update)

theorem list_users_hides_key_witness:
  "truthy (JStr ''secret-A'') \<and> truthy (JStr ''secret-B'')
   \<and> list_users ([user1, user2][1 := ([user1, user2] ! 1)\<lparr>braveApiKey := JStr ''secret-A''\<rparr>])
     = list_users ([user1, user2][1 := ([user1, user2] ! 1)\<lparr>braveApiKey := JStr ''secret-B''\<rparr>])"
  using list_users_hides_key [of "[user1, user2]" "JStr ''secret-A''" "JStr ''secret-B''" 1]
  by simp

end
